theory Spec2Isabelle
  imports Main "HOL-Library.AList" "HOL-Library.Multiset"
begin

section \<open>The tab service store (componentsV2/Tabs/store/tabServiceStore.ts)\<close>

text \<open>
  The store is a single mutable object whose actions run to completion one after the
  other. Every action is embedded as a function from the state before to the state
  after. Actions that call code outside the registry (the last-used-context setter, the
  browser's confirmation prompt, a blocker's callbacks, the error reporter) also return
  the list of those calls, in order.
\<close>

subsection \<open>JavaScript values used by the store\<close>

type_synonym TabId = int
type_synonym SourceName = string
type_synonym SourceId = string

text \<open>
  A JavaScript \<open>Map\<close> keeps its keys in insertion order: \<open>set\<close> on a present key
  replaces the value where it stands, \<open>set\<close> on a new key appends, \<open>delete\<close> removes
  the key. An association list with these three operations is the same structure.
\<close>

type_synonym ('k, 'v) JsMap = "('k \<times> 'v) list"

abbreviation Map_get :: "('k, 'v) JsMap \<Rightarrow> 'k \<Rightarrow> 'v option" where
  "Map_get m k \<equiv> map_of m k"

abbreviation Map_has :: "('k, 'v) JsMap \<Rightarrow> 'k \<Rightarrow> bool" where
  "Map_has m k \<equiv> k \<in> fst ` set m"

abbreviation Map_set :: "('k, 'v) JsMap \<Rightarrow> 'k \<Rightarrow> 'v \<Rightarrow> ('k, 'v) JsMap" where
  "Map_set m k v \<equiv> AList.update k v m"

abbreviation Map_delete :: "('k, 'v) JsMap \<Rightarrow> 'k \<Rightarrow> ('k, 'v) JsMap" where
  "Map_delete m k \<equiv> AList.delete k m"

abbreviation Map_keys :: "('k, 'v) JsMap \<Rightarrow> 'k list" where
  "Map_keys m \<equiv> map fst m"

abbreviation Map_values :: "('k, 'v) JsMap \<Rightarrow> 'v list" where
  "Map_values m \<equiv> map snd m"

text \<open>\<open>new Map(entries)\<close>: the entries are set one after the other, from the left.\<close>

definition new_Map :: "('k \<times> 'v) list \<Rightarrow> ('k, 'v) JsMap" where
  "new_Map entries = foldl (\<lambda>m (k, v). Map_set m k v) [] entries"

text \<open>
  Truthiness of an optional number (\<open>if (tabId)\<close>, \<open>a && b\<close>): \<open>undefined\<close> and
  \<open>0\<close> are falsy. Truthiness of an optional string: \<open>undefined\<close> and the empty
  string are falsy.
\<close>

fun truthy :: "TabId option \<Rightarrow> bool" where
  "truthy None = False"
| "truthy (Some n) = (n \<noteq> 0)"

fun truthy_str :: "string option \<Rightarrow> bool" where
  "truthy_str None = False"
| "truthy_str (Some s) = (s \<noteq> [])"

text \<open>\<open>Array.prototype.indexOf\<close>: the first position of the element, \<open>-1\<close> when absent.\<close>

fun indexOf :: "'a list \<Rightarrow> 'a \<Rightarrow> int" where
  "indexOf [] x = -1"
| "indexOf (y # ys) x =
     (if y = x then 0 else (let i = indexOf ys x in if i < 0 then -1 else i + 1))"

text \<open>Reading an array at an index: \<open>undefined\<close> outside the array.\<close>

definition at_index :: "'a list \<Rightarrow> int \<Rightarrow> 'a option" where
  "at_index xs i = (if 0 \<le> i \<and> i < int (length xs) then Some (xs ! nat i) else None)"

subsection \<open>Sources, blockers and tabs\<close>

text \<open>
  \<open>AbstractTabSource\<close> is declared in \<open>../helpers/tabSource\<close>. The store reads a source
  through \<open>getSourceId()\<close>, \<open>getSourceName()\<close>, \<open>getDefaultTitle()\<close>,
  \<open>metadata.context?.id\<close> and, when persisted, its \<open>type\<close> and \<open>metadata\<close>; the
  record holds what these return.
\<close>

record SourceMetadata =
  context_id :: "string option"
  details :: string

record AbstractTabSource =
  source_type :: string
  metadata :: SourceMetadata
  getSourceId :: SourceId
  getSourceName :: SourceName
  getDefaultTitle :: string

type_synonym Callback = string

record Blocker =
  blocker_title :: "string option"
  onCancel :: "Callback option"
  onConfirm :: "Callback option"

text \<open>
  \<open>TabState\<close> is declared in \<open>./tabStore\<close>: the tab's identifier, source, title, icon,
  preview, unsaved and closable flags, and its active blocker (what
  \<open>getActiveBlocker()\<close> returns).
\<close>

record TabState =
  tab_id :: TabId
  source :: AbstractTabSource
  title :: string
  icon :: string
  preview :: bool
  unsaved :: bool
  closable :: bool
  getActiveBlocker :: "Blocker option"

text \<open>
  Modelled from the spec: \<open>createTabStore\<close> of \<open>./tabStore\<close> is not part of the
  sources at hand. Section 3 of the specification lists a tab's fields; a tab is created
  from its identifier, source and title and an optional preview flag. A flag that is not
  passed is off, a new tab has no unsaved changes and no blocker, and it can be closed.
\<close>

definition createTabStore :: "TabId \<Rightarrow> AbstractTabSource \<Rightarrow> string \<Rightarrow> bool option \<Rightarrow> TabState" where
  "createTabStore tabId src ttl prev =
     \<lparr> tab_id = tabId, source = src, title = ttl, icon = [],
       preview = (case prev of None \<Rightarrow> False | Some b \<Rightarrow> b),
       unsaved = False, closable = True, getActiveBlocker = None \<rparr>"

record TabConfig =
  config_preview :: bool

text \<open>\<open>config?.preview\<close>\<close>

definition config_preview_opt :: "TabConfig option \<Rightarrow> bool option" where
  "config_preview_opt config = map_option config_preview config"

subsection \<open>The registry state\<close>

record TabServiceState =
  tabIdSequence :: TabId
  activeTabId :: "TabId option"
  activeTabSource :: "AbstractTabSource option"
  previewTabId :: "TabId option"
  previewTabSource :: "AbstractTabSource option"
  tabsIndex :: "(SourceName, (SourceId, TabId) JsMap) JsMap"
  tabs :: "(TabId, TabState) JsMap"
  tabOrder :: "TabId list"
  ignorePath :: bool
  version :: int

definition initialState :: TabServiceState where
  "initialState =
     \<lparr> tabIdSequence = 0, activeTabId = None, activeTabSource = None,
       previewTabId = None, previewTabSource = None, tabsIndex = [], tabs = [],
       tabOrder = [], ignorePath = False, version = 0 \<rparr>"

datatype Effect =
    SetLastUsedContextId string
  | WindowConfirm string
  | Invoke Callback
  | SentryCapture string

subsection \<open>Actions\<close>

text \<open>\<open>tabsIndex.get(sourceName)?.get(sourceId)\<close>\<close>

definition index_get ::
  "(SourceName, (SourceId, TabId) JsMap) JsMap \<Rightarrow> SourceName \<Rightarrow> SourceId \<Rightarrow> TabId option" where
  "index_get idx sourceName sourceId =
     (case Map_get idx sourceName of
        None \<Rightarrow> None
      | Some sourceMap \<Rightarrow> Map_get sourceMap sourceId)"

definition getTabIdBySource :: "TabServiceState \<Rightarrow> SourceId \<Rightarrow> SourceName \<Rightarrow> TabId option" where
  "getTabIdBySource st sourceId sourceName = index_get (tabsIndex st) sourceName sourceId"

definition incrementVersion :: "TabServiceState \<Rightarrow> TabServiceState" where
  "incrementVersion st = st\<lparr>version := version st + 1\<rparr>"

definition generateNewTabId :: "TabServiceState \<Rightarrow> TabId \<times> TabServiceState" where
  "generateNewTabId st =
     (let nextId = tabIdSequence st + 1 in (nextId, st\<lparr>tabIdSequence := nextId\<rparr>))"

definition context_effects :: "AbstractTabSource \<Rightarrow> Effect list" where
  "context_effects src =
     (if truthy_str (context_id (metadata src))
      then [SetLastUsedContextId (the (context_id (metadata src)))] else [])"

definition setActiveTab :: "TabServiceState \<Rightarrow> TabId option \<Rightarrow> TabServiceState \<times> Effect list" where
  "setActiveTab st tid =
     (case (case tid of None \<Rightarrow> None | Some i \<Rightarrow> Map_get (tabs st) i) of
        Some tabState \<Rightarrow>
          (st\<lparr>activeTabId := tid, activeTabSource := Some (source tabState)\<rparr>,
           context_effects (source tabState))
      | None \<Rightarrow> (st\<lparr>activeTabId := None, activeTabSource := None\<rparr>, []))"

definition resetPreviewTab :: "TabServiceState \<Rightarrow> TabServiceState" where
  "resetPreviewTab st = st\<lparr>previewTabId := None, previewTabSource := None\<rparr>"

definition setPreviewTab :: "TabServiceState \<Rightarrow> TabId \<Rightarrow> TabServiceState" where
  "setPreviewTab st tid =
     (case Map_get (tabs st) tid of
        Some tabState \<Rightarrow> st\<lparr>previewTabId := Some tid, previewTabSource := Some (source tabState)\<rparr>
      | None \<Rightarrow> resetPreviewTab st)"

text \<open>\<open>tabsIndex.get(sourceName)?.set(sourceId, tabId)\<close>, or a fresh inner map.\<close>

definition index_set ::
  "(SourceName, (SourceId, TabId) JsMap) JsMap \<Rightarrow> SourceName \<Rightarrow> SourceId \<Rightarrow> TabId
    \<Rightarrow> (SourceName, (SourceId, TabId) JsMap) JsMap" where
  "index_set idx sourceName sourceId tabId =
     (case Map_get idx sourceName of
        Some sourceMap \<Rightarrow> Map_set idx sourceName (Map_set sourceMap sourceId tabId)
      | None \<Rightarrow> Map_set idx sourceName (Map_set [] sourceId tabId))"

text \<open>\<open>tabsIndex.get(sourceName)?.delete(sourceId)\<close>\<close>

definition index_delete ::
  "(SourceName, (SourceId, TabId) JsMap) JsMap \<Rightarrow> SourceName \<Rightarrow> SourceId
    \<Rightarrow> (SourceName, (SourceId, TabId) JsMap) JsMap" where
  "index_delete idx sourceName sourceId =
     (case Map_get idx sourceName of
        Some sourceMap \<Rightarrow> Map_set idx sourceName (Map_delete sourceMap sourceId)
      | None \<Rightarrow> idx)"

text \<open>\<open>if (tabsIndex.get(sourceName)?.size === 0) tabsIndex.delete(sourceName)\<close>\<close>

definition index_prune ::
  "(SourceName, (SourceId, TabId) JsMap) JsMap \<Rightarrow> SourceName
    \<Rightarrow> (SourceName, (SourceId, TabId) JsMap) JsMap" where
  "index_prune idx sourceName =
     (case Map_get idx sourceName of
        Some sourceMap \<Rightarrow> if length sourceMap = 0 then Map_delete idx sourceName else idx
      | None \<Rightarrow> idx)"

definition upsertTabSource ::
  "TabServiceState \<Rightarrow> TabId option \<Rightarrow> AbstractTabSource \<Rightarrow> TabConfig option
    \<Rightarrow> TabServiceState \<times> Effect list" where
  "upsertTabSource st tabId src config =
     (case tabId of
        None \<Rightarrow> (st, [])
      | Some tid \<Rightarrow>
          if tid = 0 then (st, [])
          else
            let tab = createTabStore tid src (getDefaultTitle src) (config_preview_opt config);
                newIndex = index_set (tabsIndex st) (getSourceName src) (getSourceId src) tid;
                newTabs = Map_set (tabs st) tid tab;
                newTabOrder = (if tid \<in> set (tabOrder st) then tabOrder st else tabOrder st @ [tid])
            in setActiveTab (st\<lparr>tabsIndex := newIndex, tabs := newTabs, tabOrder := newTabOrder\<rparr>)
                 (Some tid))"

text \<open>
  The first statement of the preview branch of \<open>openTab\<close>:
  \<open>if (previewTabId && previewTabSource) tabsIndex.get(oldSourceName)?.delete(oldSourceId)\<close>.
\<close>

definition evict_preview_source :: "TabServiceState \<Rightarrow> TabServiceState" where
  "evict_preview_source st =
     (if truthy (previewTabId st) \<and> previewTabSource st \<noteq> None
      then st\<lparr>tabsIndex :=
              index_delete (tabsIndex st)
                (getSourceName (the (previewTabSource st)))
                (getSourceId (the (previewTabSource st)))\<rparr>
      else st)"

definition openTab ::
  "TabServiceState \<Rightarrow> AbstractTabSource \<Rightarrow> TabConfig option \<Rightarrow> TabServiceState \<times> Effect list" where
  "openTab st src config =
     (let existingTabId = getTabIdBySource st (getSourceId src) (getSourceName src) in
      if truthy existingTabId then
        (let (st1, e1) = setActiveTab st existingTabId in (st1, context_effects src @ e1))
      else if config_preview_opt config = Some True then
        (let st1 = evict_preview_source st;
             (tabId, st2) =
               (case previewTabId st of
                  Some p \<Rightarrow> (p, st1)
                | None \<Rightarrow> generateNewTabId st1);
             (st3, e3) = upsertTabSource st2 (Some tabId) src config
         in (setPreviewTab st3 tabId, context_effects src @ e3))
      else
        (let (newTabId, st1) = generateNewTabId st;
             (st2, e2) = upsertTabSource st1 (Some newTabId) src None
         in (st2, context_effects src @ e2)))"

text \<open>
  \<open>closeTabById\<close> may ask the user through \<open>window.confirm\<close>; \<open>canClose\<close> is the
  user's answer, read only when the prompt is shown.
\<close>

definition confirm_message :: "Blocker option \<Rightarrow> string" where
  "confirm_message activeBlocker =
     (case activeBlocker of
        Some b \<Rightarrow>
          if truthy_str (blocker_title b) then the (blocker_title b)
          else ''Discard changes? Changes you made will not be saved.''
      | None \<Rightarrow> ''Discard changes? Changes you made will not be saved.'')"

definition invoke_opt :: "Callback option \<Rightarrow> Effect list" where
  "invoke_opt cb = (case cb of None \<Rightarrow> [] | Some f \<Rightarrow> [Invoke f])"

definition blocker_cancel :: "Blocker option \<Rightarrow> Effect list" where
  "blocker_cancel activeBlocker =
     (case activeBlocker of None \<Rightarrow> [] | Some b \<Rightarrow> invoke_opt (onCancel b))"

definition blocker_confirm :: "Blocker option \<Rightarrow> Effect list" where
  "blocker_confirm activeBlocker =
     (case activeBlocker of None \<Rightarrow> [] | Some b \<Rightarrow> invoke_opt (onConfirm b))"

definition next_active :: "TabId option \<Rightarrow> TabId \<Rightarrow> TabId list \<Rightarrow> TabId list \<Rightarrow> TabId option" where
  "next_active activeId tabId order newTabOrder =
     (if activeId \<noteq> Some tabId then activeId
      else if length newTabOrder = 0 then None
      else
        let currentIndex = indexOf order tabId;
            nextIndex = (if currentIndex < int (length newTabOrder) then currentIndex
                         else currentIndex - 1)
        in if nextIndex \<ge> 0 then at_index newTabOrder nextIndex else None)"

definition closeTabById ::
  "TabServiceState \<Rightarrow> TabId \<Rightarrow> bool \<Rightarrow> bool \<Rightarrow> TabServiceState \<times> Effect list" where
  "closeTabById st tabId skipUnsavedPrompt canClose =
     (case Map_get (tabs st) tabId of
        None \<Rightarrow> (st, [])
      | Some tabState \<Rightarrow>
          let sourceName = getSourceName (source tabState);
              sourceId = getSourceId (source tabState);
              activeBlocker = getActiveBlocker tabState;
              prompted = (\<not> skipUnsavedPrompt \<and> (activeBlocker \<noteq> None \<or> unsaved tabState))
          in
            if prompted \<and> \<not> canClose then
              (st, WindowConfirm (confirm_message activeBlocker) # blocker_cancel activeBlocker)
            else
              let e0 = (if prompted
                        then WindowConfirm (confirm_message activeBlocker) # blocker_confirm activeBlocker
                        else []);
                  newIndex = index_prune (index_delete (tabsIndex st) sourceName sourceId) sourceName;
                  newTabOrder = filter (\<lambda>i. i \<noteq> tabId) (tabOrder st);
                  newActiveTabId = next_active (activeTabId st) tabId (tabOrder st) newTabOrder;
                  (st1, e1) =
                    setActiveTab
                      (st\<lparr>tabsIndex := newIndex, tabs := Map_delete (tabs st) tabId,
                          tabOrder := newTabOrder\<rparr>)
                      newActiveTabId
              in (st1, e0 @ e1))"

definition updateTabOrder :: "TabServiceState \<Rightarrow> TabId list \<Rightarrow> TabServiceState" where
  "updateTabOrder st newOrder = st\<lparr>tabOrder := newOrder, version := version st + 1\<rparr>"


record TabUpdates =
  update_preview :: "bool option"
  update_unsaved :: "bool option"
  update_title :: "string option"
  update_icon :: "string option"

text \<open>
  \<open>updateTabBySource\<close> writes the title, the preview flag and the icon of the tab's own
  store (\<open>updates?.x ?? tabState.x\<close>); the unsaved flag is not written here.
\<close>

definition updateTabBySource ::
  "TabServiceState \<Rightarrow> SourceId \<Rightarrow> SourceName \<Rightarrow> TabUpdates \<Rightarrow> TabServiceState" where
  "updateTabBySource st sourceId sourceName updates =
     (let tabId = getTabIdBySource st sourceId sourceName in
      if \<not> truthy tabId then st
      else
        case Map_get (tabs st) (the tabId) of
          None \<Rightarrow> st
        | Some tabState \<Rightarrow>
            let newTabState =
                  tabState\<lparr>title := (case update_title updates of Some t \<Rightarrow> t | None \<Rightarrow> title tabState),
                           preview := (case update_preview updates of Some b \<Rightarrow> b | None \<Rightarrow> preview tabState),
                           icon := (case update_icon updates of Some i \<Rightarrow> i | None \<Rightarrow> icon tabState)\<rparr>
            in incrementVersion (st\<lparr>tabs := Map_set (tabs st) (the tabId) newTabState\<rparr>))"

subsection \<open>Sequences of operations\<close>

datatype Operation =
    OpenTab AbstractTabSource "TabConfig option"
  | CloseTabById TabId bool bool
  | UpdateTabBySource SourceId SourceName TabUpdates

fun apply_operation :: "TabServiceState \<Rightarrow> Operation \<Rightarrow> TabServiceState" where
  "apply_operation st (OpenTab src config) = fst (openTab st src config)"
| "apply_operation st (CloseTabById tabId skipUnsavedPrompt canClose) =
     fst (closeTabById st tabId skipUnsavedPrompt canClose)"
| "apply_operation st (UpdateTabBySource sourceId sourceName updates) =
     updateTabBySource st sourceId sourceName updates"

definition run_operations :: "TabServiceState \<Rightarrow> Operation list \<Rightarrow> TabServiceState" where
  "run_operations st ops = foldl apply_operation st ops"

fun sets_preview :: "Operation \<Rightarrow> bool" where
  "sets_preview (UpdateTabBySource sourceId sourceName updates) = (update_preview updates = Some True)"
| "sets_preview _ = False"

subsection \<open>Properties of a registry state\<close>

text \<open>The tab order lists exactly the keys of the tab map, each once.\<close>

definition order_matches_tabs :: "TabServiceState \<Rightarrow> bool" where
  "order_matches_tabs st \<longleftrightarrow>
     distinct (tabOrder st) \<and> set (tabOrder st) = set (Map_keys (tabs st))"

text \<open>The number of tabs whose preview flag is set.\<close>

definition preview_count :: "TabServiceState \<Rightarrow> nat" where
  "preview_count st = length (filter preview (Map_values (tabs st)))"

text \<open>
  A tab map and a preview slot agree: the keys are distinct and a tab whose preview flag
  is set is the tab that the slot names.
\<close>

definition slot_names_previews :: "(TabId, TabState) JsMap \<Rightarrow> TabId option \<Rightarrow> bool" where
  "slot_names_previews m slot \<longleftrightarrow>
     distinct (Map_keys m) \<and> (\<forall>(k, t) \<in> set m. preview t \<longrightarrow> slot = Some k)"

text \<open>
  Identifiers in use were issued by the sequence: they are positive and not above it.
\<close>

definition ids_issued :: "TabServiceState \<Rightarrow> bool" where
  "ids_issued st \<longleftrightarrow>
     0 \<le> tabIdSequence st \<and>
     (\<forall>k \<in> set (Map_keys (tabs st)). 0 < k \<and> k \<le> tabIdSequence st) \<and>
     (\<forall>p. previewTabId st = Some p \<longrightarrow> 0 < p \<and> p \<le> tabIdSequence st)"

text \<open>Every entry of the source index names a tab of the tab map that shows that source.\<close>

definition index_resolves :: "TabServiceState \<Rightarrow> bool" where
  "index_resolves st \<longleftrightarrow>
     (\<forall>n s t. index_get (tabsIndex st) n s = Some t \<longrightarrow>
        (\<exists>ts. Map_get (tabs st) t = Some ts \<and> getSourceName (source ts) = n \<and>
              getSourceId (source ts) = s))"

text \<open>While the tab of the preview slot is open, the slot's source is that tab's source.\<close>

definition slot_source_matches :: "TabServiceState \<Rightarrow> bool" where
  "slot_source_matches st \<longleftrightarrow>
     (\<forall>p ts. previewTabId st = Some p \<and> Map_get (tabs st) p = Some ts \<longrightarrow>
        (\<exists>src. previewTabSource st = Some src \<and> getSourceName src = getSourceName (source ts) \<and>
               getSourceId src = getSourceId (source ts)))"

definition registry_wf :: "TabServiceState \<Rightarrow> bool" where
  "registry_wf st \<longleftrightarrow> ids_issued st \<and> index_resolves st \<and> slot_source_matches st"

subsection \<open>The persistence adapter\<close>

text \<open>
  What \<open>JSON.parse\<close> gives back for a stored string: the snapshot of every tab (of which
  \<open>getItem\<close> reads \<open>source.type\<close>, \<open>source.metadata\<close> and \<open>title\<close>), the source index
  and the tab order as arrays. A field that is absent is \<open>None\<close>.
\<close>

record StoredSource =
  stored_type :: string
  stored_metadata :: SourceMetadata

record StoredTabState =
  stored_source :: StoredSource
  stored_title :: string
  stored_preview :: bool
  stored_unsaved :: bool

record StoredState =
  stored_tabIdSequence :: TabId
  stored_activeTabId :: "TabId option"
  stored_tabsIndex :: "(SourceName \<times> (SourceId \<times> TabId) list) list option"
  stored_tabs :: "(TabId \<times> StoredTabState) list option"
  stored_tabOrder :: "TabId list option"
  stored_version :: int

text \<open>The \<open>state\<close> of the value that \<open>getItem\<close> returns.\<close>

record RehydratedState =
  r_tabIdSequence :: TabId
  r_activeTabId :: "TabId option"
  r_activeTabSource :: "AbstractTabSource option"
  r_tabsIndex :: "(SourceName, (SourceId, TabId) JsMap) JsMap"
  r_tabs :: "(TabId, TabState) JsMap"
  r_tabOrder :: "TabId list"
  r_version :: int

datatype StorageError = GetItemFailed | SetItemFailed

text \<open>
  \<open>TAB_SOURCES_MAP\<close> (\<open>../constants\<close>) maps a source's type to its constructor. It is a
  parameter here: no entry for a type, or a constructor that throws, is \<open>None\<close>.
\<close>

type_synonym SourceRegistry = "string \<Rightarrow> (SourceMetadata \<Rightarrow> AbstractTabSource option) option"

fun reconstruct_tab :: "SourceRegistry \<Rightarrow> TabId \<times> StoredTabState \<Rightarrow> (TabId \<times> TabState) option" where
  "reconstruct_tab TAB_SOURCES_MAP (tabId, tabState) =
     (case TAB_SOURCES_MAP (stored_type (stored_source tabState)) of
        None \<Rightarrow> None
      | Some construct \<Rightarrow>
          (case construct (stored_metadata (stored_source tabState)) of
             None \<Rightarrow> None
           | Some src \<Rightarrow> Some (tabId, createTabStore tabId src (stored_title tabState) None)))"

text \<open>\<open>existingValue.state.tabOrder || []\<close>\<close>

definition storedTabOrder_of :: "StoredState \<Rightarrow> TabId list" where
  "storedTabOrder_of existingValue =
     (case stored_tabOrder existingValue of None \<Rightarrow> [] | Some order \<Rightarrow> order)"

text \<open>
  Lines 339 to 344 of \<open>getItem\<close>: the stored order, healed against the rebuilt tab map.
  \<open>validTabIds\<close> is the set of the map's keys, read in the map's key order.
\<close>

definition finalTabOrder :: "TabId list \<Rightarrow> TabId list \<Rightarrow> TabId list" where
  "finalTabOrder storedTabOrder validTabIds =
     (let validTabOrder = filter (\<lambda>i. i \<in> set validTabIds) storedTabOrder;
          missingTabs = filter (\<lambda>i. i \<notin> set validTabOrder) validTabIds
      in validTabOrder @ missingTabs)"

text \<open>
  \<open>getItem\<close> reads the session storage (a map from names to strings). \<open>JSON_parse\<close> is
  the parser, \<open>None\<close> where \<open>JSON.parse\<close> throws or the value has no \<open>state\<close>. Every
  exception inside the \<open>try\<close> block is rethrown as one error.
\<close>

definition getItem ::
  "(string \<Rightarrow> StoredState option) \<Rightarrow> SourceRegistry \<Rightarrow> (string \<Rightarrow> string option) \<Rightarrow> string
    \<Rightarrow> StorageError + RehydratedState option" where
  "getItem JSON_parse TAB_SOURCES_MAP sessionStorage name =
     (case sessionStorage name of
        None \<Rightarrow> Inr None
      | Some stateString \<Rightarrow>
          if stateString = [] then Inr None
          else
            case JSON_parse stateString of
              None \<Rightarrow> Inl GetItemFailed
            | Some existingValue \<Rightarrow>
                (case stored_tabsIndex existingValue of
                   None \<Rightarrow> Inl GetItemFailed
                 | Some storedIndex \<Rightarrow>
                     (case stored_tabs existingValue of
                        None \<Rightarrow> Inl GetItemFailed
                      | Some storedTabs \<Rightarrow>
                          (case those (map (reconstruct_tab TAB_SOURCES_MAP) storedTabs) of
                             None \<Rightarrow> Inl GetItemFailed
                           | Some entries \<Rightarrow>
                               let newIndex = new_Map (map (\<lambda>(sourceName, sourceMap). (sourceName, new_Map sourceMap)) storedIndex);
                                   newTabs = new_Map entries;
                                   activeId = stored_activeTabId existingValue;
                                   activeSource =
                                     (if truthy activeId
                                      then map_option source (Map_get newTabs (the activeId))
                                      else None);
                                   storedTabOrder = storedTabOrder_of existingValue
                               in Inr (Some
                                    \<lparr> r_tabIdSequence = stored_tabIdSequence existingValue,
                                      r_activeTabId = activeId,
                                      r_activeTabSource = activeSource,
                                      r_tabsIndex = newIndex,
                                      r_tabs = newTabs,
                                      r_tabOrder = finalTabOrder storedTabOrder (Map_keys newTabs),
                                      r_version = stored_version existingValue \<rparr>)))))"

text \<open>
  A stored string that \<open>getItem\<close> can read: it parses, it has the index and the tabs, and
  every stored tab's source type has a constructor that builds the source.
\<close>

definition readable :: "(string \<Rightarrow> StoredState option) \<Rightarrow> SourceRegistry \<Rightarrow> string \<Rightarrow> bool" where
  "readable JSON_parse TAB_SOURCES_MAP stateString =
     (case JSON_parse stateString of
        None \<Rightarrow> False
      | Some existingValue \<Rightarrow>
          stored_tabsIndex existingValue \<noteq> None \<and>
          (case stored_tabs existingValue of
             None \<Rightarrow> False
           | Some storedTabs \<Rightarrow> list_all (\<lambda>e. reconstruct_tab TAB_SOURCES_MAP e \<noteq> None) storedTabs))"

text \<open>
  \<open>setItem\<close> serialises the state and writes the string. \<open>JSON_stringify\<close> is \<open>None\<close>
  where \<open>JSON.stringify\<close> throws, and \<open>storage_accepts\<close> is false where
  \<open>sessionStorage.setItem\<close> throws (the quota); both are rethrown as one error.
\<close>

definition setItem ::
  "(TabServiceState \<Rightarrow> string option) \<Rightarrow> (string \<Rightarrow> string \<Rightarrow> bool) \<Rightarrow> (string \<Rightarrow> string option)
    \<Rightarrow> string \<Rightarrow> TabServiceState \<Rightarrow> StorageError + (string \<Rightarrow> string option)" where
  "setItem JSON_stringify storage_accepts sessionStorage name newValue =
     (case JSON_stringify newValue of
        None \<Rightarrow> Inl SetItemFailed
      | Some stateString \<Rightarrow>
          if storage_accepts name stateString then Inr (sessionStorage(name \<mapsto> stateString))
          else Inl SetItemFailed)"

text \<open>\<open>onRehydrateStorage\<close>: an error of the rehydration is sent to the error reporter.\<close>

definition onRehydrateStorage :: "StorageError option \<Rightarrow> Effect list" where
  "onRehydrateStorage error =
     (case error of
        Some e \<Rightarrow> [SentryCapture ''Tabs rehydration failed'']
      | None \<Rightarrow> [])"

text \<open>
  Modelled from the spec: the rehydration step of the persistence middleware is library
  code outside the sources. Sections 4.2 and 7: a failed read is reported and leaves the
  initial state; a successful read puts the stored fields over the initial state.
\<close>

definition merge_rehydrated :: "TabServiceState \<Rightarrow> RehydratedState \<Rightarrow> TabServiceState" where
  "merge_rehydrated st r =
     st\<lparr> tabIdSequence := r_tabIdSequence r, activeTabId := r_activeTabId r,
         activeTabSource := r_activeTabSource r, tabsIndex := r_tabsIndex r,
         tabs := r_tabs r, tabOrder := r_tabOrder r, version := r_version r \<rparr>"

definition rehydrate ::
  "(string \<Rightarrow> StoredState option) \<Rightarrow> SourceRegistry \<Rightarrow> (string \<Rightarrow> string option) \<Rightarrow> string
    \<Rightarrow> TabServiceState \<times> Effect list" where
  "rehydrate JSON_parse TAB_SOURCES_MAP sessionStorage name =
     (case getItem JSON_parse TAB_SOURCES_MAP sessionStorage name of
        Inl e \<Rightarrow> (initialState, onRehydrateStorage (Some e))
      | Inr None \<Rightarrow> (initialState, onRehydrateStorage None)
      | Inr (Some r) \<Rightarrow> (merge_rehydrated initialState r, onRehydrateStorage None))"

subsection \<open>The writes that the actions make\<close>












subsection \<open>Example data\<close>

definition request_source :: "string \<Rightarrow> AbstractTabSource" where
  "request_source rid =
     \<lparr> source_type = ''request'',
       metadata = \<lparr> context_id = Some ''workspace'', details = rid \<rparr>,
       getSourceId = rid, getSourceName = ''request'',
       getDefaultTitle = ''Untitled request'' \<rparr>"

definition preview_config :: "TabConfig option" where
  "preview_config = Some \<lparr> config_preview = True \<rparr>"

definition one_tab_state :: TabServiceState where
  "one_tab_state = fst (openTab initialState (request_source ''a'') None)"

text \<open>Three tabs in the order 1, 2, 3, the middle one active.\<close>

definition three_tab_state :: TabServiceState where
  "three_tab_state =
     run_operations initialState
       [OpenTab (request_source ''a'') None, OpenTab (request_source ''b'') None,
        OpenTab (request_source ''c'') None, OpenTab (request_source ''b'') None]"

definition one_preview_state :: TabServiceState where
  "one_preview_state = fst (openTab initialState (request_source ''a'') preview_config)"

definition unsaved_blocker :: Blocker where
  "unsaved_blocker =
     \<lparr> blocker_title = Some ''Unsaved request'', onCancel = Some ''keepEditing'',
       onConfirm = Some ''discardRequest'' \<rparr>"

definition blocked_tab :: TabState where
  "blocked_tab =
     (createTabStore 1 (request_source ''a'') ''Untitled request'' None)
       \<lparr>unsaved := True, getActiveBlocker := Some unsaved_blocker\<rparr>"

definition blocked_tab_state :: TabServiceState where
  "blocked_tab_state = one_tab_state\<lparr>tabs := [(1, blocked_tab)]\<rparr>"

text \<open>The preview tab is closed, then another source is opened as a preview.\<close>

definition closed_preview_state :: TabServiceState where
  "closed_preview_state = fst (closeTabById one_preview_state 1 True True)"

definition reopened_preview_state :: TabServiceState where
  "reopened_preview_state = fst (openTab closed_preview_state (request_source ''b'') preview_config)"

text \<open>Two plain tabs, each then marked as a preview through \<open>updateTabBySource\<close>.\<close>

definition mark_preview :: TabUpdates where
  "mark_preview =
     \<lparr> update_preview = Some True, update_unsaved = None, update_title = None, update_icon = None \<rparr>"

definition rename_tab :: TabUpdates where
  "rename_tab =
     \<lparr> update_preview = None, update_unsaved = None, update_title = Some ''Renamed'', update_icon = None \<rparr>"

definition two_previews_operations :: "Operation list" where
  "two_previews_operations =
     [OpenTab (request_source ''a'') None, OpenTab (request_source ''b'') None,
      UpdateTabBySource ''a'' ''request'' mark_preview,
      UpdateTabBySource ''b'' ''request'' mark_preview]"

definition preview_session_operations :: "Operation list" where
  "preview_session_operations =
     [OpenTab (request_source ''a'') preview_config, OpenTab (request_source ''b'') None,
      UpdateTabBySource ''b'' ''request'' rename_tab,
      OpenTab (request_source ''c'') preview_config, CloseTabById 1 True True,
      OpenTab (request_source ''d'') preview_config]"

text \<open>
  A stored state: two tabs, the first stored as an unsaved preview; the stored order names
  an identifier that has no tab and leaves tab 1 out.
\<close>

definition example_registry :: SourceRegistry where
  "example_registry sourceType =
     (if sourceType = ''request'' then Some (\<lambda>m. Some (request_source (details m))) else None)"

definition stored_request :: "string \<Rightarrow> bool \<Rightarrow> bool \<Rightarrow> StoredTabState" where
  "stored_request rid prev unsav =
     \<lparr> stored_source =
         \<lparr> stored_type = ''request'',
           stored_metadata = \<lparr> context_id = Some ''workspace'', details = rid \<rparr> \<rparr>,
       stored_title = ''Untitled request'', stored_preview = prev, stored_unsaved = unsav \<rparr>"

definition example_stored_state :: StoredState where
  "example_stored_state =
     \<lparr> stored_tabIdSequence = 2, stored_activeTabId = Some 1,
       stored_tabsIndex = Some [(''request'', [(''a'', 1), (''b'', 2)])],
       stored_tabs = Some [(1, stored_request ''a'' True True), (2, stored_request ''b'' False False)],
       stored_tabOrder = Some [9, 2],
       stored_version = 0 \<rparr>"

definition example_parse :: "string \<Rightarrow> StoredState option" where
  "example_parse stateString =
     (if stateString = ''stored tabs'' then Some example_stored_state else None)"

definition example_storage :: "string \<Rightarrow> string option" where
  "example_storage = [''rq_tabs_store'' \<mapsto> ''stored tabs'']"

definition broken_storage :: "string \<Rightarrow> string option" where
  "broken_storage = [''rq_tabs_store'' \<mapsto> ''{not json'']"





section \<open>Properties\<close>

lemmas store_defs = openTab_def upsertTabSource_def setActiveTab_def setPreviewTab_def
  resetPreviewTab_def generateNewTabId_def getTabIdBySource_def index_get_def index_set_def
  index_delete_def index_prune_def evict_preview_source_def closeTabById_def next_active_def
  at_index_def createTabStore_def config_preview_opt_def context_effects_def initialState_def
  confirm_message_def blocker_cancel_def blocker_confirm_def invoke_opt_def updateTabOrder_def
  updateTabBySource_def incrementVersion_def run_operations_def Let_def

lemmas example_defs = request_source_def preview_config_def one_tab_state_def
  three_tab_state_def one_preview_state_def unsaved_blocker_def blocked_tab_def
  blocked_tab_state_def closed_preview_state_def reopened_preview_state_def mark_preview_def
  rename_tab_def two_previews_operations_def preview_session_operations_def

lemmas persistence_defs = getItem_def setItem_def rehydrate_def onRehydrateStorage_def
  merge_rehydrated_def readable_def finalTabOrder_def storedTabOrder_of_def new_Map_def
  createTabStore_def example_registry_def stored_request_def example_stored_state_def
  example_parse_def example_storage_def broken_storage_def request_source_def

subsection \<open>What each action leaves alone\<close>

lemma setActiveTab_frame [simp]:
  "tabs (fst (setActiveTab st t)) = tabs st"
  "tabOrder (fst (setActiveTab st t)) = tabOrder st"
  "tabsIndex (fst (setActiveTab st t)) = tabsIndex st"
  "tabIdSequence (fst (setActiveTab st t)) = tabIdSequence st"
  "previewTabId (fst (setActiveTab st t)) = previewTabId st"
  "previewTabSource (fst (setActiveTab st t)) = previewTabSource st"
  "ignorePath (fst (setActiveTab st t)) = ignorePath st"
  "version (fst (setActiveTab st t)) = version st"
  by (simp_all add: setActiveTab_def split: option.splits)

lemma setActiveTab_active:
  "activeTabId (fst (setActiveTab st t)) =
     (case t of None \<Rightarrow> None | Some i \<Rightarrow> if Map_has (tabs st) i then Some i else None)"
proof (cases t)
  case None
  then show ?thesis by (simp add: setActiveTab_def)
next
  case (Some i)
  show ?thesis
  proof (cases "map_of (tabs st) i")
    case None
    then have "i \<notin> fst ` set (tabs st)" by (simp add: map_of_eq_None_iff)
    with None Some show ?thesis by (simp add: setActiveTab_def)
  next
    case (Some ts)
    then have "i \<in> fst ` set (tabs st)" by (metis map_of_eq_None_iff option.distinct(1))
    with Some \<open>t = Some i\<close> show ?thesis by (simp add: setActiveTab_def)
  qed
qed

lemma setPreviewTab_frame [simp]:
  "tabs (setPreviewTab st t) = tabs st"
  "tabOrder (setPreviewTab st t) = tabOrder st"
  "tabsIndex (setPreviewTab st t) = tabsIndex st"
  "tabIdSequence (setPreviewTab st t) = tabIdSequence st"
  "activeTabId (setPreviewTab st t) = activeTabId st"
  by (simp_all add: setPreviewTab_def resetPreviewTab_def split: option.splits)

lemma generateNewTabId_frame [simp]:
  "tabs (snd (generateNewTabId st)) = tabs st"
  "tabOrder (snd (generateNewTabId st)) = tabOrder st"
  "tabsIndex (snd (generateNewTabId st)) = tabsIndex st"
  "previewTabId (snd (generateNewTabId st)) = previewTabId st"
  "previewTabSource (snd (generateNewTabId st)) = previewTabSource st"
  "activeTabId (snd (generateNewTabId st)) = activeTabId st"
  "tabIdSequence (snd (generateNewTabId st)) = tabIdSequence st + 1"
  "fst (generateNewTabId st) = tabIdSequence st + 1"
  by (simp_all add: generateNewTabId_def Let_def)

lemma evict_preview_source_frame [simp]:
  "tabs (evict_preview_source st) = tabs st"
  "tabOrder (evict_preview_source st) = tabOrder st"
  "tabIdSequence (evict_preview_source st) = tabIdSequence st"
  "previewTabId (evict_preview_source st) = previewTabId st"
  "previewTabSource (evict_preview_source st) = previewTabSource st"
  "activeTabId (evict_preview_source st) = activeTabId st"
  by (simp_all add: evict_preview_source_def)

lemma upsertTabSource_frame [simp]:
  "tabIdSequence (fst (upsertTabSource st tabId src config)) = tabIdSequence st"
  "previewTabId (fst (upsertTabSource st tabId src config)) = previewTabId st"
  "previewTabSource (fst (upsertTabSource st tabId src config)) = previewTabSource st"
  by (simp_all add: upsertTabSource_def Let_def split: option.splits)

lemma upsertTabSource_tabs:
  "tabs (fst (upsertTabSource st tabId src config)) =
     (if truthy tabId
      then Map_set (tabs st) (the tabId)
             (createTabStore (the tabId) src (getDefaultTitle src) (config_preview_opt config))
      else tabs st)"
  by (simp add: upsertTabSource_def Let_def split: option.splits)

lemma upsertTabSource_tabOrder:
  "tabOrder (fst (upsertTabSource st tabId src config)) =
     (if truthy tabId \<and> the tabId \<notin> set (tabOrder st) then tabOrder st @ [the tabId]
      else tabOrder st)"
  by (simp add: upsertTabSource_def Let_def split: option.splits)

lemma upsertTabSource_index:
  "tabsIndex (fst (upsertTabSource st tabId src config)) =
     (if truthy tabId
      then index_set (tabsIndex st) (getSourceName src) (getSourceId src) (the tabId)
      else tabsIndex st)"
  by (simp add: upsertTabSource_def Let_def split: option.splits)

lemma upsertTabSource_active:
  "truthy tabId \<Longrightarrow> activeTabId (fst (upsertTabSource st tabId src config)) = tabId"
  by (cases tabId) (simp_all add: upsertTabSource_def Let_def setActiveTab_def update_conv')

subsection \<open>The branches of \<open>openTab\<close>\<close>

lemma openTab_existing:
  assumes "truthy (getTabIdBySource st (getSourceId src) (getSourceName src))"
  shows "fst (openTab st src config) =
           fst (setActiveTab st (getTabIdBySource st (getSourceId src) (getSourceName src)))"
  using assms by (simp add: openTab_def Let_def case_prod_beta)

lemma openTab_plain:
  assumes "\<not> truthy (getTabIdBySource st (getSourceId src) (getSourceName src))"
    and "config_preview_opt config \<noteq> Some True"
  shows "fst (openTab st src config) =
           fst (upsertTabSource (snd (generateNewTabId st)) (Some (tabIdSequence st + 1)) src None)"
  using assms by (simp add: openTab_def Let_def generateNewTabId_def case_prod_beta)

lemma openTab_preview_reuse:
  assumes "\<not> truthy (getTabIdBySource st (getSourceId src) (getSourceName src))"
    and "config_preview_opt config = Some True"
    and "previewTabId st = Some p"
  shows "fst (openTab st src config) =
           setPreviewTab (fst (upsertTabSource (evict_preview_source st) (Some p) src config)) p"
  using assms by (simp add: openTab_def Let_def case_prod_beta)

lemma openTab_preview_fresh:
  assumes "\<not> truthy (getTabIdBySource st (getSourceId src) (getSourceName src))"
    and "config_preview_opt config = Some True"
    and "previewTabId st = None"
  shows "fst (openTab st src config) =
           setPreviewTab
             (fst (upsertTabSource (snd (generateNewTabId st)) (Some (tabIdSequence st + 1)) src config))
             (tabIdSequence st + 1)"
  using assms
  by (simp add: openTab_def Let_def generateNewTabId_def evict_preview_source_def case_prod_beta)

subsection \<open>The source index\<close>

lemma index_get_set:
  "index_get (index_set idx n s t) n' s' =
     (if n' = n \<and> s' = s then Some t else index_get idx n' s')"
  by (auto simp: index_get_def index_set_def update_conv' split: option.splits)

lemma index_get_delete:
  "index_get (index_delete idx n s) n' s' =
     (if n' = n \<and> s' = s then None else index_get idx n' s')"
  by (auto simp: index_get_def index_delete_def update_conv' delete_conv' split: option.splits)

lemma index_get_prune:
  "index_get (index_prune idx n) n' s' = index_get idx n' s'"
  by (auto simp: index_get_def index_prune_def delete_conv' split: option.splits)

subsection \<open>The tab order and the tab map\<close>

lemma order_matches_tabs_cong:
  "order_matches_tabs st \<Longrightarrow> tabs st' = tabs st \<Longrightarrow> tabOrder st' = tabOrder st
    \<Longrightarrow> order_matches_tabs st'"
  by (simp add: order_matches_tabs_def)

lemma upsertTabSource_order:
  "order_matches_tabs st \<Longrightarrow> order_matches_tabs (fst (upsertTabSource st tabId src config))"
  unfolding order_matches_tabs_def upsertTabSource_tabs upsertTabSource_tabOrder
  by (auto simp: dom_update)

lemma openTab_order:
  assumes "order_matches_tabs st"
  shows "order_matches_tabs (fst (openTab st src config))"
proof (cases "truthy (getTabIdBySource st (getSourceId src) (getSourceName src))")
  case True
  then show ?thesis
    using assms by (simp add: openTab_existing order_matches_tabs_def)
next
  case False
  note absent = this
  show ?thesis
  proof (cases "config_preview_opt config = Some True")
    case False
    have "order_matches_tabs (snd (generateNewTabId st))"
      using assms by (rule order_matches_tabs_cong) simp_all
    then show ?thesis
      using absent False by (simp add: openTab_plain upsertTabSource_order)
  next
    case True
    show ?thesis
    proof (cases "previewTabId st")
      case None
      have "order_matches_tabs (snd (generateNewTabId st))"
        using assms by (rule order_matches_tabs_cong) simp_all
      then have "order_matches_tabs
          (fst (upsertTabSource (snd (generateNewTabId st)) (Some (tabIdSequence st + 1)) src config))"
        by (rule upsertTabSource_order)
      then show ?thesis
        using absent True None
        by (simp add: openTab_preview_fresh order_matches_tabs_def)
    next
      case (Some p)
      have "order_matches_tabs (evict_preview_source st)"
        using assms by (rule order_matches_tabs_cong) simp_all
      then have "order_matches_tabs
          (fst (upsertTabSource (evict_preview_source st) (Some p) src config))"
        by (rule upsertTabSource_order)
      then show ?thesis
        using absent True Some
        by (simp add: openTab_preview_reuse order_matches_tabs_def)
    qed
  qed
qed

lemma closeTabById_tabs:
  "tabs (fst (closeTabById st tabId skip canClose)) = tabs st \<and>
   tabOrder (fst (closeTabById st tabId skip canClose)) = tabOrder st
   \<or>
   tabs (fst (closeTabById st tabId skip canClose)) = Map_delete (tabs st) tabId \<and>
   tabOrder (fst (closeTabById st tabId skip canClose)) = filter (\<lambda>i. i \<noteq> tabId) (tabOrder st)"
  by (simp add: closeTabById_def Let_def case_prod_beta split: option.splits)

lemma closeTabById_order:
  assumes "order_matches_tabs st"
  shows "order_matches_tabs (fst (closeTabById st tabId skip canClose))"
  using closeTabById_tabs [of st tabId skip canClose] assms
  by (auto simp: order_matches_tabs_def delete_keys simp flip: set_map)

lemma updateTabOrder_order:
  assumes "order_matches_tabs st" and "mset newOrder = mset (tabOrder st)"
  shows "order_matches_tabs (updateTabOrder st newOrder)"
proof -
  have "set newOrder = set (tabOrder st)" using assms(2) by (rule mset_eq_setD)
  moreover have "distinct newOrder = distinct (tabOrder st)"
    using assms(2) by (rule mset_eq_imp_distinct_iff)
  ultimately show ?thesis
    using assms(1) by (simp add: order_matches_tabs_def updateTabOrder_def)
qed

text \<open>
  Claim C6. The invariant: the tab order holds exactly the keys of the tab map, each once.
  \<open>openTab\<close>, \<open>upsertTabSource\<close> and \<open>closeTabById\<close> keep it, whatever their
  arguments and whatever the user answers to the prompt; \<open>updateTabOrder\<close> keeps it when
  the new order is a permutation of the current one.
\<close>

theorem registry_operations_preserve_order_invariant:
  assumes "order_matches_tabs st"
  shows "order_matches_tabs (fst (openTab st src config)) \<and>
         order_matches_tabs (fst (upsertTabSource st tabId src config)) \<and>
         order_matches_tabs (fst (closeTabById st closedId skipUnsavedPrompt canClose)) \<and>
         (mset newOrder = mset (tabOrder st) \<longrightarrow> order_matches_tabs (updateTabOrder st newOrder))"
  using assms
  by (simp add: openTab_order upsertTabSource_order closeTabById_order updateTabOrder_order)

lemma three_tab_state_eval:
  "tabOrder three_tab_state = [1, 2, 3]"
  "Map_keys (tabs three_tab_state) = [1, 2, 3]"
  "activeTabId three_tab_state = Some 2"
  "Map_get (tabs three_tab_state) 2 = Some (createTabStore 2 (request_source ''b'') ''Untitled request'' None)"
  by (simp_all add: example_defs store_defs)

theorem registry_operations_preserve_order_invariant_witness:
  "order_matches_tabs three_tab_state \<and>
   order_matches_tabs (fst (openTab three_tab_state (request_source ''d'') preview_config)) \<and>
   order_matches_tabs (fst (upsertTabSource three_tab_state (Some 7) (request_source ''d'') preview_config)) \<and>
   order_matches_tabs (fst (closeTabById three_tab_state 2 True True)) \<and>
   mset [3, 1, 2] = mset (tabOrder three_tab_state) \<and>
   order_matches_tabs (updateTabOrder three_tab_state [3, 1, 2])"
proof -
  have inv: "order_matches_tabs three_tab_state"
    by (simp add: order_matches_tabs_def three_tab_state_eval)
  have perm: "mset [3, 1, 2] = mset (tabOrder three_tab_state)"
    by (simp add: three_tab_state_eval)
  show ?thesis
    using registry_operations_preserve_order_invariant
      [OF inv, where src = "request_source ''d''" and config = preview_config and tabId = "Some 7"
        and closedId = 2 and skipUnsavedPrompt = True and canClose = True and newOrder = "[3, 1, 2]"]
      inv perm
    by simp
qed

subsection \<open>Opening a source that is already open\<close>

text \<open>
  Claim C1. When the source index holds a tab identifier for the source (a truthy one:
  identifiers start at 1) and that tab is in the tab map, \<open>openTab\<close> changes nothing but
  the active tab: the state after is the state before with \<open>activeTabId\<close> set to the
  indexed identifier and \<open>activeTabSource\<close> to that tab's source. The tab map, the source
  index, the tab order, the identifier sequence and the preview slot are as before.
\<close>

theorem openTab_existing_source_only_activates:
  assumes "getTabIdBySource st (getSourceId src) (getSourceName src) = Some t"
    and "t \<noteq> 0"
    and "Map_get (tabs st) t = Some ts"
  shows "fst (openTab st src config) = st\<lparr>activeTabId := Some t, activeTabSource := Some (source ts)\<rparr> \<and>
         tabs (fst (openTab st src config)) = tabs st \<and>
         tabsIndex (fst (openTab st src config)) = tabsIndex st \<and>
         tabOrder (fst (openTab st src config)) = tabOrder st \<and>
         tabIdSequence (fst (openTab st src config)) = tabIdSequence st \<and>
         previewTabId (fst (openTab st src config)) = previewTabId st \<and>
         previewTabSource (fst (openTab st src config)) = previewTabSource st \<and>
         activeTabId (fst (openTab st src config)) = Some t"
  using assms by (simp add: openTab_existing setActiveTab_def)

theorem openTab_existing_source_only_activates_witness:
  "getTabIdBySource one_tab_state (getSourceId (request_source ''a'')) (getSourceName (request_source ''a''))
     = Some 1 \<and>
   (1 :: TabId) \<noteq> 0 \<and>
   Map_get (tabs one_tab_state) 1 = Some (createTabStore 1 (request_source ''a'') ''Untitled request'' None) \<and>
   Map_keys (tabs (fst (openTab one_tab_state (request_source ''a'') preview_config))) = [1] \<and>
   tabIdSequence (fst (openTab one_tab_state (request_source ''a'') preview_config)) = 1 \<and>
   activeTabId (fst (openTab one_tab_state (request_source ''a'') preview_config)) = Some 1"
proof -
  have h1: "getTabIdBySource one_tab_state (getSourceId (request_source ''a''))
      (getSourceName (request_source ''a'')) = Some 1"
    by (simp add: example_defs store_defs)
  have h2: "(1 :: TabId) \<noteq> 0" by simp
  have h3: "Map_get (tabs one_tab_state) 1
      = Some (createTabStore 1 (request_source ''a'') ''Untitled request'' None)"
    by (simp add: example_defs store_defs)
  have k: "Map_keys (tabs one_tab_state) = [1]" "tabIdSequence one_tab_state = 1"
    by (simp_all add: example_defs store_defs)
  show ?thesis
    using openTab_existing_source_only_activates [OF h1 h2 h3, of preview_config] h1 h3 k
    by simp
qed

subsection \<open>Closing a tab\<close>

lemma indexOf_append:
  "x \<notin> set xs \<Longrightarrow> indexOf (xs @ x # ys) x = int (length xs)"
  by (induction xs) (auto simp: Let_def)

lemma filter_neq_append:
  assumes "distinct (xs @ x # ys)"
  shows "filter (\<lambda>i. i \<noteq> x) (xs @ x # ys) = xs @ ys"
proof -
  have "filter (\<lambda>i. i \<noteq> x) xs = xs" and "filter (\<lambda>i. i \<noteq> x) ys = ys"
    using assms by (auto simp: filter_id_conv)
  then show ?thesis by simp
qed

lemma next_active_closed:
  assumes "distinct (xs @ x # ys)"
  shows "next_active (Some x) x (xs @ x # ys) (xs @ ys) =
           (if ys \<noteq> [] then Some (hd ys) else if xs \<noteq> [] then Some (last xs) else None)"
proof -
  have i: "indexOf (xs @ x # ys) x = int (length xs)"
    using assms by (simp add: indexOf_append)
  show ?thesis
  proof (cases ys)
    case Nil
    then show ?thesis
      using i by (cases xs rule: rev_cases) (simp_all add: next_active_def at_index_def nth_append Let_def)
  next
    case (Cons y ys')
    then show ?thesis
      using i by (simp add: next_active_def at_index_def nth_append Let_def)
  qed
qed

text \<open>
  Claim C2. In a state whose tab order lists exactly the tabs, let the active tab stand at
  position \<open>length xs\<close> of the order \<open>xs @ tabId # ys\<close>, and let it be closed without a
  prompt (\<open>skipUnsavedPrompt\<close>, or neither a blocker nor unsaved changes). The new order is
  \<open>xs @ ys\<close>. If a tab followed the closed one, the tab now at the closed tab's position
  becomes active; if the closed tab was the last one, the tab before it does; if it was the
  only tab, no tab is active.
\<close>

theorem closeTabById_activates_neighbour:
  assumes inv: "order_matches_tabs st"
    and order: "tabOrder st = xs @ tabId # ys"
    and active: "activeTabId st = Some tabId"
    and tab: "Map_get (tabs st) tabId = Some ts"
    and noprompt: "skipUnsavedPrompt \<or> (getActiveBlocker ts = None \<and> \<not> unsaved ts)"
  shows "tabOrder (fst (closeTabById st tabId skipUnsavedPrompt canClose)) = xs @ ys \<and>
         activeTabId (fst (closeTabById st tabId skipUnsavedPrompt canClose)) =
           (if ys \<noteq> [] then Some ((xs @ ys) ! length xs)
            else if xs \<noteq> [] then Some ((xs @ ys) ! (length xs - 1))
            else None)"
proof -
  let ?st' = "fst (closeTabById st tabId skipUnsavedPrompt canClose)"
  have d: "distinct (xs @ tabId # ys)"
    using inv order by (simp add: order_matches_tabs_def)
  have keys: "fst ` set (tabs st) = set (xs @ tabId # ys)"
    using inv order by (simp add: order_matches_tabs_def)
  have new: "filter (\<lambda>i. i \<noteq> tabId) (tabOrder st) = xs @ ys"
    using filter_neq_append [OF d] by (simp only: order)
  have na: "next_active (activeTabId st) tabId (tabOrder st) (xs @ ys) =
      (if ys \<noteq> [] then Some (hd ys) else if xs \<noteq> [] then Some (last xs) else None)"
    using d by (simp add: active order next_active_closed)
  have st': "?st' = fst (setActiveTab
      (st\<lparr>tabsIndex := index_prune (index_delete (tabsIndex st) (getSourceName (source ts))
                (getSourceId (source ts))) (getSourceName (source ts)),
          tabs := Map_delete (tabs st) tabId, tabOrder := xs @ ys\<rparr>)
      (if ys \<noteq> [] then Some (hd ys) else if xs \<noteq> [] then Some (last xs) else None))"
    using tab noprompt by (auto simp add: closeTabById_def Let_def case_prod_beta new na)
  have o: "tabOrder ?st' = xs @ ys"
    by (simp add: st')
  have dk: "fst ` set (Map_delete (tabs st) tabId) = set (xs @ ys)"
    using d keys by (auto simp: delete_keys simp flip: set_map)
  have a: "activeTabId ?st' =
      (if ys \<noteq> [] then Some (hd ys) else if xs \<noteq> [] then Some (last xs) else None)"
    unfolding st' setActiveTab_active using dk by auto
  have "ys \<noteq> [] \<Longrightarrow> (xs @ ys) ! length xs = hd ys"
    by (simp add: nth_append hd_conv_nth)
  moreover have "ys = [] \<Longrightarrow> xs \<noteq> [] \<Longrightarrow> (xs @ ys) ! (length xs - 1) = last xs"
    by (simp add: last_conv_nth)
  ultimately show ?thesis using o a by auto
qed

theorem closeTabById_activates_neighbour_witness:
  "order_matches_tabs three_tab_state \<and>
   tabOrder three_tab_state = [1] @ 2 # [3] \<and>
   activeTabId three_tab_state = Some 2 \<and>
   Map_get (tabs three_tab_state) 2 = Some (createTabStore 2 (request_source ''b'') ''Untitled request'' None) \<and>
   tabOrder (fst (closeTabById three_tab_state 2 False False)) = [1, 3] \<and>
   activeTabId (fst (closeTabById three_tab_state 2 False False)) = Some 3"
proof -
  have inv: "order_matches_tabs three_tab_state"
    by (simp add: order_matches_tabs_def three_tab_state_eval)
  have order: "tabOrder three_tab_state = [1] @ 2 # [3]"
    by (simp add: three_tab_state_eval)
  have active: "activeTabId three_tab_state = Some 2"
    by (simp add: three_tab_state_eval)
  have tab: "Map_get (tabs three_tab_state) 2
      = Some (createTabStore 2 (request_source ''b'') ''Untitled request'' None)"
    by (simp add: three_tab_state_eval)
  have noprompt: "False \<or>
      (getActiveBlocker (createTabStore 2 (request_source ''b'') ''Untitled request'' None) = None \<and>
       \<not> unsaved (createTabStore 2 (request_source ''b'') ''Untitled request'' None))"
    by (simp add: createTabStore_def)
  show ?thesis
    using closeTabById_activates_neighbour [OF inv order active tab noprompt, of False]
      inv order active tab
    by simp
qed

subsection \<open>Cancelling the close prompt\<close>

text \<open>
  Claim C7. A tab with an active blocker or with unsaved changes is closed without
  \<open>skipUnsavedPrompt\<close>, and the user cancels the prompt. The registry state is returned as
  it was, and the calls made are the prompt followed by the blocker's \<open>onCancel\<close> callback
  when the tab has a blocker with such a callback.
\<close>

theorem closeTabById_cancel_keeps_state:
  assumes "Map_get (tabs st) tabId = Some ts"
    and "getActiveBlocker ts \<noteq> None \<or> unsaved ts"
  shows "closeTabById st tabId False False =
           (st, WindowConfirm (confirm_message (getActiveBlocker ts)) # blocker_cancel (getActiveBlocker ts)) \<and>
         (\<forall>b f. getActiveBlocker ts = Some b \<and> onCancel b = Some f \<longrightarrow>
            blocker_cancel (getActiveBlocker ts) = [Invoke f])"
  using assms by (auto simp add: closeTabById_def Let_def blocker_cancel_def invoke_opt_def)

theorem closeTabById_cancel_keeps_state_witness:
  "Map_get (tabs blocked_tab_state) 1 = Some blocked_tab \<and>
   getActiveBlocker blocked_tab = Some unsaved_blocker \<and> unsaved blocked_tab \<and>
   closeTabById blocked_tab_state 1 False False =
     (blocked_tab_state, [WindowConfirm ''Unsaved request'', Invoke ''keepEditing''])"
proof -
  have h1: "Map_get (tabs blocked_tab_state) 1 = Some blocked_tab"
    by (simp add: blocked_tab_state_def)
  have h2: "getActiveBlocker blocked_tab \<noteq> None \<or> unsaved blocked_tab"
    by (simp add: blocked_tab_def)
  have e: "confirm_message (getActiveBlocker blocked_tab) = ''Unsaved request''"
      "blocker_cancel (getActiveBlocker blocked_tab) = [Invoke ''keepEditing'']"
    by (simp_all add: blocked_tab_def unsaved_blocker_def confirm_message_def blocker_cancel_def
        invoke_opt_def)
  have b: "getActiveBlocker blocked_tab = Some unsaved_blocker" "unsaved blocked_tab"
    by (simp_all add: blocked_tab_def)
  show ?thesis
    using closeTabById_cancel_keeps_state [OF h1 h2] h1 b e by simp
qed

subsection \<open>Replacing the preview tab\<close>

text \<open>
  Claim C3. A preview tab is recorded (\<open>previewTabId\<close> truthy, \<open>previewTabSource\<close> set)
  and a source without an index entry is opened with \<open>preview: true\<close>. No identifier is
  generated: the new tab is stored under the preview tab's identifier, which stays the
  preview and becomes the active tab, and no other key enters the tab map. The index
  after is the index before with the old preview source's entry deleted and the new
  source's entry set, so the old source (when it is another source) has no entry left.
\<close>

theorem openTab_preview_reuses_identifier:
  assumes pid: "previewTabId st = Some p" and truthy_p: "p \<noteq> 0"
    and psrc: "previewTabSource st = Some old"
    and fresh: "getTabIdBySource st (getSourceId src) (getSourceName src) = None"
    and cfg: "config_preview_opt config = Some True"
  shows "tabIdSequence (fst (openTab st src config)) = tabIdSequence st \<and>
         Map_get (tabs (fst (openTab st src config))) p
           = Some (createTabStore p src (getDefaultTitle src) (Some True)) \<and>
         set (Map_keys (tabs (fst (openTab st src config)))) = insert p (set (Map_keys (tabs st))) \<and>
         previewTabId (fst (openTab st src config)) = Some p \<and>
         previewTabSource (fst (openTab st src config)) = Some src \<and>
         activeTabId (fst (openTab st src config)) = Some p \<and>
         tabsIndex (fst (openTab st src config))
           = index_set (index_delete (tabsIndex st) (getSourceName old) (getSourceId old))
               (getSourceName src) (getSourceId src) p \<and>
         getTabIdBySource (fst (openTab st src config)) (getSourceId src) (getSourceName src) = Some p \<and>
         ((getSourceName old, getSourceId old) \<noteq> (getSourceName src, getSourceId src) \<longrightarrow>
            getTabIdBySource (fst (openTab st src config)) (getSourceId old) (getSourceName old) = None)"
proof -
  let ?u = "fst (upsertTabSource (evict_preview_source st) (Some p) src config)"
  have eq: "fst (openTab st src config) = setPreviewTab ?u p"
    using fresh cfg pid by (simp add: openTab_preview_reuse)
  have ev: "tabsIndex (evict_preview_source st)
      = index_delete (tabsIndex st) (getSourceName old) (getSourceId old)"
    using pid truthy_p psrc by (simp add: evict_preview_source_def)
  have t: "tabs ?u = Map_set (tabs st) p (createTabStore p src (getDefaultTitle src) (Some True))"
    using truthy_p cfg by (simp add: upsertTabSource_tabs)
  have i: "tabsIndex ?u = index_set (index_delete (tabsIndex st) (getSourceName old) (getSourceId old))
               (getSourceName src) (getSourceId src) p"
    using truthy_p by (simp add: upsertTabSource_index ev)
  have g: "Map_get (tabs ?u) p = Some (createTabStore p src (getDefaultTitle src) (Some True))"
    by (simp add: t update_conv')
  have pv: "previewTabId (setPreviewTab ?u p) = Some p"
       "previewTabSource (setPreviewTab ?u p) = Some src"
    using g by (simp_all add: setPreviewTab_def createTabStore_def)
  have a: "activeTabId ?u = Some p"
    using truthy_p by (simp add: upsertTabSource_active)
  show ?thesis
    unfolding eq using g pv a i t
    by (simp add: getTabIdBySource_def index_get_set index_get_delete dom_update)
qed

theorem openTab_preview_reuses_identifier_witness:
  "previewTabId one_preview_state = Some 1 \<and> (1 :: TabId) \<noteq> 0 \<and>
   previewTabSource one_preview_state = Some (request_source ''a'') \<and>
   getTabIdBySource one_preview_state (getSourceId (request_source ''b''))
     (getSourceName (request_source ''b'')) = None \<and>
   config_preview_opt preview_config = Some True \<and>
   tabIdSequence (fst (openTab one_preview_state (request_source ''b'') preview_config)) = 1 \<and>
   previewTabId (fst (openTab one_preview_state (request_source ''b'') preview_config)) = Some 1 \<and>
   getTabIdBySource (fst (openTab one_preview_state (request_source ''b'') preview_config)) ''b'' ''request''
     = Some 1 \<and>
   getTabIdBySource (fst (openTab one_preview_state (request_source ''b'') preview_config)) ''a'' ''request''
     = None"
proof -
  have pid: "previewTabId one_preview_state = Some 1"
    by (simp add: example_defs store_defs)
  have truthy_p: "(1 :: TabId) \<noteq> 0" by simp
  have psrc: "previewTabSource one_preview_state = Some (request_source ''a'')"
    by (simp add: example_defs store_defs)
  have fresh: "getTabIdBySource one_preview_state (getSourceId (request_source ''b''))
      (getSourceName (request_source ''b'')) = None"
    by (simp add: example_defs store_defs)
  have cfg: "config_preview_opt preview_config = Some True"
    by (simp add: preview_config_def config_preview_opt_def)
  have seq: "tabIdSequence one_preview_state = 1"
    by (simp add: example_defs store_defs)
  have names: "getSourceId (request_source ''a'') = ''a''" "getSourceId (request_source ''b'') = ''b''"
     "getSourceName (request_source ''a'') = ''request''" "getSourceName (request_source ''b'') = ''request''"
    by (simp_all add: request_source_def)
  show ?thesis
    using openTab_preview_reuses_identifier [OF pid truthy_p psrc fresh cfg] pid psrc fresh cfg seq
    by (simp add: names)
qed

subsection \<open>Reading the stored state\<close>


lemma those_map_Some:
  "those (map f xs) = Some ys \<Longrightarrow> y \<in> set ys \<Longrightarrow> \<exists>x \<in> set xs. f x = Some y"
  by (induction xs arbitrary: ys) (auto split: option.splits)

lemma set_update_subset:
  "set (AList.update k v m) \<subseteq> insert (k, v) (set m)"
  by (induction m) auto

lemma set_foldl_update_subset:
  "set (foldl (\<lambda>m (k, v). Map_set m k v) acc entries) \<subseteq> set acc \<union> set entries"
proof (induction entries arbitrary: acc)
  case Nil
  then show ?case by simp
next
  case (Cons e entries)
  obtain k v where e: "e = (k, v)" by (cases e)
  have "set (foldl (\<lambda>m (k, v). Map_set m k v) (Map_set acc k v) entries)
      \<subseteq> set (Map_set acc k v) \<union> set entries"
    by (rule Cons.IH)
  also have "\<dots> \<subseteq> set acc \<union> set (e # entries)"
    using set_update_subset [of k v acc] by (auto simp: e)
  finally show ?case by (simp add: e)
qed

lemma set_new_Map_subset: "set (new_Map entries) \<subseteq> set entries"
  using set_foldl_update_subset [of "[]" entries] by (simp add: new_Map_def)

lemma getItem_Some:
  assumes "getItem JSON_parse TAB_SOURCES_MAP sessionStorage name = Inr (Some r)"
  obtains stateString existingValue storedTabs entries where
    "sessionStorage name = Some stateString"
    "JSON_parse stateString = Some existingValue"
    "stored_tabs existingValue = Some storedTabs"
    "those (map (reconstruct_tab TAB_SOURCES_MAP) storedTabs) = Some entries"
    "r_tabs r = new_Map entries"
    "r_tabOrder r = finalTabOrder (storedTabOrder_of existingValue) (Map_keys (r_tabs r))"
  using assms
  by (auto simp: getItem_def Let_def split: option.splits if_splits)

lemma finalTabOrder_set: "set (finalTabOrder storedTabOrder validTabIds) = set validTabIds"
  by (auto simp: finalTabOrder_def Let_def)

lemma finalTabOrder_eq:
  "finalTabOrder storedTabOrder validTabIds =
     filter (\<lambda>i. i \<in> set validTabIds) storedTabOrder @
     filter (\<lambda>i. i \<notin> set storedTabOrder) validTabIds"
  by (auto simp: finalTabOrder_def Let_def intro: filter_cong)

text \<open>
  Claim C5. When \<open>getItem\<close> returns a state, its tab order is the stored order without
  the identifiers that key no rebuilt tab, followed by the rebuilt tabs' identifiers that
  the stored order does not name, in the tab map's key order. So no stale identifier is
  in it, and it holds exactly the keys of the rebuilt tab map.
\<close>

theorem getItem_heals_tab_order:
  assumes "getItem JSON_parse TAB_SOURCES_MAP sessionStorage name = Inr (Some r)"
    and "sessionStorage name = Some stateString"
    and "JSON_parse stateString = Some existingValue"
  shows "r_tabOrder r =
           filter (\<lambda>i. i \<in> set (Map_keys (r_tabs r))) (storedTabOrder_of existingValue) @
           filter (\<lambda>i. i \<notin> set (storedTabOrder_of existingValue)) (Map_keys (r_tabs r)) \<and>
         (\<forall>i \<in> set (storedTabOrder_of existingValue).
            i \<notin> set (Map_keys (r_tabs r)) \<longrightarrow> i \<notin> set (r_tabOrder r)) \<and>
         set (r_tabOrder r) = set (Map_keys (r_tabs r))"
proof -
  from assms(1) obtain s' ev' where
    "sessionStorage name = Some s'" "JSON_parse s' = Some ev'"
    "r_tabOrder r = finalTabOrder (storedTabOrder_of ev') (Map_keys (r_tabs r))"
    by (rule getItem_Some)
  with assms(2,3) have o: "r_tabOrder r
      = finalTabOrder (storedTabOrder_of existingValue) (Map_keys (r_tabs r))"
    by simp
  have s: "set (r_tabOrder r) = set (Map_keys (r_tabs r))"
    unfolding o by (rule finalTabOrder_set)
  show ?thesis
    using s by (simp add: o finalTabOrder_eq)
qed

lemma example_getItem:
  "getItem example_parse example_registry example_storage ''rq_tabs_store'' =
     Inr (Some
       \<lparr> r_tabIdSequence = 2, r_activeTabId = Some 1,
         r_activeTabSource = Some (request_source ''a''),
         r_tabsIndex = [(''request'', [(''a'', 1), (''b'', 2)])],
         r_tabs = [(1, createTabStore 1 (request_source ''a'') ''Untitled request'' None),
                   (2, createTabStore 2 (request_source ''b'') ''Untitled request'' None)],
         r_tabOrder = [2, 1], r_version = 0 \<rparr>)"
  by (simp add: persistence_defs)


theorem getItem_heals_tab_order_witness:
  "getItem example_parse example_registry example_storage ''rq_tabs_store'' =
     Inr (Some
       \<lparr> r_tabIdSequence = 2, r_activeTabId = Some 1,
         r_activeTabSource = Some (request_source ''a''),
         r_tabsIndex = [(''request'', [(''a'', 1), (''b'', 2)])],
         r_tabs = [(1, createTabStore 1 (request_source ''a'') ''Untitled request'' None),
                   (2, createTabStore 2 (request_source ''b'') ''Untitled request'' None)],
         r_tabOrder = [2, 1], r_version = 0 \<rparr>) \<and>
   example_storage ''rq_tabs_store'' = Some ''stored tabs'' \<and>
   example_parse ''stored tabs'' = Some example_stored_state \<and>
   storedTabOrder_of example_stored_state = [9, 2] \<and>
   [2, 1] = filter (\<lambda>i. i \<in> set [1, 2]) [9, 2] @ filter (\<lambda>i. i \<notin> set [9, 2]) [1, 2 :: TabId] \<and>
   (9 :: TabId) \<notin> set [2, 1] \<and>
   set [2, 1] = set [1, 2 :: TabId]"
proof -
  have h2: "example_storage ''rq_tabs_store'' = Some ''stored tabs''"
    by (simp add: example_storage_def)
  have h3: "example_parse ''stored tabs'' = Some example_stored_state"
    by (simp add: example_parse_def)
  have so: "storedTabOrder_of example_stored_state = [9, 2]"
    by (simp add: storedTabOrder_of_def example_stored_state_def)
  show ?thesis
    using getItem_heals_tab_order [OF example_getItem h2 h3] example_getItem h2 h3 so
    by simp
qed

text \<open>
  Claim C10. Every tab of a state that \<open>getItem\<close> returns is the tab that
  \<open>createTabStore\<close> makes from the identifier, the rebuilt source and the stored title,
  with no preview argument. With \<open>createTabStore\<close> as modelled above, the tab is neither a
  preview nor unsaved, whatever flags were stored.
\<close>

theorem getItem_drops_preview_and_unsaved:
  assumes "getItem JSON_parse TAB_SOURCES_MAP sessionStorage name = Inr (Some r)"
    and "(tabId, tabState) \<in> set (r_tabs r)"
  shows "tabState = createTabStore tabId (source tabState) (title tabState) None \<and>
         \<not> preview tabState \<and> \<not> unsaved tabState"
proof -
  from assms(1) obtain storedTabs entries where
    entries: "those (map (reconstruct_tab TAB_SOURCES_MAP) storedTabs) = Some entries"
    and tabs: "r_tabs r = new_Map entries"
    by (rule getItem_Some)
  have "(tabId, tabState) \<in> set entries"
    using assms(2) tabs set_new_Map_subset [of entries] by auto
  then obtain e where "reconstruct_tab TAB_SOURCES_MAP e = Some (tabId, tabState)"
    using those_map_Some [OF entries] by blast
  then obtain src ttl where "tabState = createTabStore tabId src ttl None"
    by (cases e) (auto split: option.splits)
  then show ?thesis
    by (simp add: createTabStore_def)
qed

theorem getItem_drops_preview_and_unsaved_witness:
  "getItem example_parse example_registry example_storage ''rq_tabs_store'' =
     Inr (Some
       \<lparr> r_tabIdSequence = 2, r_activeTabId = Some 1,
         r_activeTabSource = Some (request_source ''a''),
         r_tabsIndex = [(''request'', [(''a'', 1), (''b'', 2)])],
         r_tabs = [(1, createTabStore 1 (request_source ''a'') ''Untitled request'' None),
                   (2, createTabStore 2 (request_source ''b'') ''Untitled request'' None)],
         r_tabOrder = [2, 1], r_version = 0 \<rparr>) \<and>
   stored_tabs example_stored_state
     = Some [(1, stored_request ''a'' True True), (2, stored_request ''b'' False False)] \<and>
   \<not> preview (createTabStore 1 (request_source ''a'') ''Untitled request'' None) \<and>
   \<not> unsaved (createTabStore 1 (request_source ''a'') ''Untitled request'' None)"
proof -
  have m: "(1, createTabStore 1 (request_source ''a'') ''Untitled request'' None)
      \<in> set (r_tabs
         \<lparr> r_tabIdSequence = 2, r_activeTabId = Some 1,
           r_activeTabSource = Some (request_source ''a''),
           r_tabsIndex = [(''request'', [(''a'', 1), (''b'', 2)])],
           r_tabs = [(1, createTabStore 1 (request_source ''a'') ''Untitled request'' None),
                     (2, createTabStore 2 (request_source ''b'') ''Untitled request'' None)],
           r_tabOrder = [2, 1], r_version = 0 \<rparr>)"
    by simp
  have st: "stored_tabs example_stored_state
      = Some [(1, stored_request ''a'' True True), (2, stored_request ''b'' False False)]"
    by (simp add: example_stored_state_def)
  show ?thesis
    using getItem_drops_preview_and_unsaved [OF example_getItem m] example_getItem st
    by simp
qed

subsection \<open>Failures of the persistence adapter\<close>




















subsection \<open>The preview flag\<close>

lemma keyed_filter_at_most_one:
  "distinct (Map_keys m) \<Longrightarrow> \<forall>(k, t) \<in> set m. P t \<longrightarrow> k = c
    \<Longrightarrow> length (filter (\<lambda>e. P (snd e)) m) \<le> 1"
proof (induction m)
  case Nil
  then show ?case by simp
next
  case (Cons e m)
  obtain k t where e: "e = (k, t)" by (cases e)
  show ?case
  proof (cases "P t")
    case False
    then show ?thesis using Cons by (simp add: e)
  next
    case True
    then have "k = c" using Cons.prems(2) by (simp add: e)
    then have "c \<notin> fst ` set m" using Cons.prems(1) by (simp add: e)
    then have "\<forall>(k', t') \<in> set m. \<not> P t'"
      using Cons.prems(2) by force
    then have "filter (\<lambda>e. P (snd e)) m = []"
      by (auto simp: filter_empty_conv)
    then show ?thesis by (simp add: e)
  qed
qed

lemma slot_names_previews_count:
  assumes "slot_names_previews m slot"
  shows "length (filter preview (Map_values m)) \<le> 1"
proof -
  have eq: "length (filter preview (Map_values m)) = length (filter (\<lambda>e. preview (snd e)) m)"
    by (simp add: filter_map comp_def)
  show ?thesis
  proof (cases slot)
    case None
    then have "filter (\<lambda>e. preview (snd e)) m = []"
      using assms by (auto simp: slot_names_previews_def filter_empty_conv)
    then show ?thesis unfolding eq by simp
  next
    case (Some c)
    have "distinct (Map_keys m)" and "\<forall>(k, t) \<in> set m. preview t \<longrightarrow> k = c"
      using assms Some by (auto simp: slot_names_previews_def)
    then show ?thesis
      unfolding eq by (rule keyed_filter_at_most_one)
  qed
qed

lemma slot_update_plain:
  "slot_names_previews m slot \<Longrightarrow> \<not> preview v \<Longrightarrow> slot_names_previews (Map_set m k v) slot"
  using set_update_subset [of k v m]
  by (auto simp: slot_names_previews_def distinct_update)

lemma slot_update_same:
  "slot_names_previews m (Some k) \<Longrightarrow> slot_names_previews (Map_set m k v) (Some k)"
  using set_update_subset [of k v m]
  by (auto simp: slot_names_previews_def distinct_update)

lemma slot_update_fresh:
  "slot_names_previews m None \<Longrightarrow> slot_names_previews (Map_set m k v) (Some k)"
  using set_update_subset [of k v m]
  by (auto simp: slot_names_previews_def distinct_update)

lemma set_delete_subset: "set (AList.delete k m) \<subseteq> set m"
  by (auto simp: AList.delete_eq)

lemma slot_delete:
  "slot_names_previews m slot \<Longrightarrow> slot_names_previews (Map_delete m k) slot"
  using set_delete_subset [of k m]
  by (auto simp: slot_names_previews_def distinct_delete)

lemma slot_absent:
  "slot_names_previews m (Some k) \<Longrightarrow> Map_get m k = None \<Longrightarrow> slot_names_previews m slot"
  by (force simp: slot_names_previews_def map_of_eq_None_iff)

lemma slot_none:
  "slot_names_previews m None \<Longrightarrow> slot_names_previews m slot"
  by (auto simp: slot_names_previews_def)

lemma setPreviewTab_slot:
  "previewTabId (setPreviewTab st p) = (if Map_get (tabs st) p = None then None else Some p)"
  by (auto simp: setPreviewTab_def resetPreviewTab_def split: option.splits)

lemma openTab_slot:
  assumes "slot_names_previews (tabs st) (previewTabId st)"
  shows "slot_names_previews (tabs (fst (openTab st src config))) (previewTabId (fst (openTab st src config)))"
proof (cases "truthy (getTabIdBySource st (getSourceId src) (getSourceName src))")
  case True
  then show ?thesis using assms by (simp add: openTab_existing)
next
  case False
  note absent = this
  show ?thesis
  proof (cases "config_preview_opt config = Some True")
    case False
    then have "\<not> preview (createTabStore (tabIdSequence st + 1) src (getDefaultTitle src) (config_preview_opt None))"
      by (simp add: createTabStore_def config_preview_opt_def)
    then show ?thesis
      using absent False assms
      by (simp add: openTab_plain upsertTabSource_tabs slot_update_plain)
  next
    case True
    show ?thesis
    proof (cases "previewTabId st")
      case None
      let ?n = "tabIdSequence st + 1"
      let ?u = "fst (upsertTabSource (snd (generateNewTabId st)) (Some ?n) src config)"
      have eq: "fst (openTab st src config) = setPreviewTab ?u ?n"
        using absent True None by (simp add: openTab_preview_fresh)
      have m: "slot_names_previews (tabs st) None" using assms None by simp
      show ?thesis
      proof (cases "?n = 0")
        case True
        then have "tabs ?u = tabs st" by (simp add: upsertTabSource_tabs)
        then show ?thesis
          unfolding eq using m by (simp add: setPreviewTab_slot slot_none)
      next
        case False
        then have t: "tabs ?u = Map_set (tabs st) ?n
            (createTabStore ?n src (getDefaultTitle src) (config_preview_opt config))"
          by (simp add: upsertTabSource_tabs)
        then have "Map_get (tabs ?u) ?n \<noteq> None" by (simp add: update_conv')
        then have "previewTabId (setPreviewTab ?u ?n) = Some ?n"
          by (simp only: setPreviewTab_slot if_False)
        moreover have "slot_names_previews (tabs ?u) (Some ?n)"
          unfolding t using m by (rule slot_update_fresh)
        ultimately show ?thesis
          unfolding eq by simp
      qed
    next
      case (Some p)
      let ?u = "fst (upsertTabSource (evict_preview_source st) (Some p) src config)"
      have eq: "fst (openTab st src config) = setPreviewTab ?u p"
        using absent True Some by (simp add: openTab_preview_reuse)
      have m: "slot_names_previews (tabs st) (Some p)" using assms Some by simp
      show ?thesis
      proof (cases "p = 0")
        case True
        then have "tabs ?u = tabs st" by (simp add: upsertTabSource_tabs)
        then show ?thesis
          unfolding eq using m slot_absent [OF m] by (simp add: setPreviewTab_slot)
      next
        case False
        then have t: "tabs ?u = Map_set (tabs st) p
            (createTabStore p src (getDefaultTitle src) (config_preview_opt config))"
          by (simp add: upsertTabSource_tabs)
        then have "Map_get (tabs ?u) p \<noteq> None" by (simp add: update_conv')
        then have "previewTabId (setPreviewTab ?u p) = Some p"
          by (simp only: setPreviewTab_slot if_False)
        moreover have "slot_names_previews (tabs ?u) (Some p)"
          unfolding t using m by (rule slot_update_same)
        ultimately show ?thesis
          unfolding eq by simp
      qed
    qed
  qed
qed

lemma closeTabById_frame:
  "previewTabId (fst (closeTabById st tabId skip canClose)) = previewTabId st \<and>
   tabIdSequence (fst (closeTabById st tabId skip canClose)) = tabIdSequence st"
  by (simp add: closeTabById_def Let_def case_prod_beta split: option.splits)

lemma closeTabById_slot:
  assumes "slot_names_previews (tabs st) (previewTabId st)"
  shows "slot_names_previews (tabs (fst (closeTabById st tabId skip canClose)))
           (previewTabId (fst (closeTabById st tabId skip canClose)))"
  using closeTabById_tabs [of st tabId skip canClose] assms
  by (auto simp: closeTabById_frame slot_delete)

lemma updateTabBySource_slot:
  assumes "slot_names_previews (tabs st) (previewTabId st)"
    and "update_preview updates \<noteq> Some True"
  shows "slot_names_previews (tabs (updateTabBySource st sourceId sourceName updates))
           (previewTabId (updateTabBySource st sourceId sourceName updates))"
proof (cases "truthy (getTabIdBySource st sourceId sourceName)")
  case False
  then show ?thesis using assms by (simp add: updateTabBySource_def)
next
  case True
  then obtain tid where tid: "getTabIdBySource st sourceId sourceName = Some tid"
    by (cases "getTabIdBySource st sourceId sourceName") simp_all
  show ?thesis
  proof (cases "Map_get (tabs st) tid")
    case None
    then show ?thesis using assms True tid by (simp add: updateTabBySource_def)
  next
    case (Some tabState)
    let ?new = "tabState\<lparr>title := (case update_title updates of Some t \<Rightarrow> t | None \<Rightarrow> title tabState),
                           preview := (case update_preview updates of Some b \<Rightarrow> b | None \<Rightarrow> preview tabState),
                           icon := (case update_icon updates of Some i \<Rightarrow> i | None \<Rightarrow> icon tabState)\<rparr>"
    have eq: "updateTabBySource st sourceId sourceName updates
        = incrementVersion (st\<lparr>tabs := Map_set (tabs st) tid ?new\<rparr>)"
      using True tid Some by (simp add: updateTabBySource_def Let_def)
    have mem: "(tid, tabState) \<in> set (tabs st)"
      using Some by (rule map_of_SomeD)
    show ?thesis
    proof (cases "preview ?new")
      case False
      then show ?thesis
        unfolding eq using assms(1) by (simp add: incrementVersion_def slot_update_plain)
    next
      case True
      then have "preview tabState"
        using assms(2) by (cases "update_preview updates") auto
      then have "previewTabId st = Some tid"
        using assms(1) mem by (auto simp: slot_names_previews_def)
      then show ?thesis
        unfolding eq using assms(1) by (simp add: incrementVersion_def slot_update_same)
    qed
  qed
qed

lemma apply_operation_slot:
  assumes "slot_names_previews (tabs st) (previewTabId st)" and "\<not> sets_preview op"
  shows "slot_names_previews (tabs (apply_operation st op)) (previewTabId (apply_operation st op))"
  using assms by (cases op) (simp_all add: openTab_slot closeTabById_slot updateTabBySource_slot)

lemma run_operations_slot:
  assumes "slot_names_previews (tabs st) (previewTabId st)" and "\<forall>op \<in> set ops. \<not> sets_preview op"
  shows "slot_names_previews (tabs (run_operations st ops)) (previewTabId (run_operations st ops))"
  using assms unfolding run_operations_def
  by (induction ops arbitrary: st) (simp_all add: apply_operation_slot)

text \<open>
  Claim C8, as amended. From the initial state, after any sequence of \<open>openTab\<close>,
  \<open>closeTabById\<close> and \<open>updateTabBySource\<close> operations in which no update sets the
  preview flag to true, at most one tab has its preview flag set, and such a tab is the
  one that \<open>previewTabId\<close> names.
\<close>

theorem at_most_one_preview_tab:
  assumes "\<forall>op \<in> set ops. \<not> sets_preview op"
  shows "preview_count (run_operations initialState ops) \<le> 1 \<and>
         (\<forall>(k, t) \<in> set (tabs (run_operations initialState ops)).
            preview t \<longrightarrow> previewTabId (run_operations initialState ops) = Some k)"
proof -
  have "slot_names_previews (tabs initialState) (previewTabId initialState)"
    by (simp add: slot_names_previews_def initialState_def)
  then have s: "slot_names_previews (tabs (run_operations initialState ops))
      (previewTabId (run_operations initialState ops))"
    using assms by (rule run_operations_slot)
  then have "preview_count (run_operations initialState ops) \<le> 1"
    unfolding preview_count_def by (rule slot_names_previews_count)
  then show ?thesis
    using s by (simp add: slot_names_previews_def)
qed

lemma preview_session_eval:
  "Map_keys (tabs (run_operations initialState preview_session_operations)) = [2, 1]"
  "map preview (Map_values (tabs (run_operations initialState preview_session_operations))) = [False, True]"
  "previewTabId (run_operations initialState preview_session_operations) = Some 1"
  by (simp_all add: example_defs store_defs)

theorem at_most_one_preview_tab_witness:
  "map sets_preview preview_session_operations = [False, False, False, False, False, False] \<and>
   preview_count (run_operations initialState preview_session_operations) = 1 \<and>
   previewTabId (run_operations initialState preview_session_operations) = Some 1"
proof -
  have h: "\<forall>op \<in> set preview_session_operations. \<not> sets_preview op"
    by (simp add: preview_session_operations_def rename_tab_def)
  have c: "preview_count (run_operations initialState preview_session_operations) = 1"
    by (simp add: preview_count_def example_defs store_defs)
  have f: "map sets_preview preview_session_operations = [False, False, False, False, False, False]"
    by (simp add: preview_session_operations_def rename_tab_def)
  show ?thesis
    using at_most_one_preview_tab [OF h] f c preview_session_eval(3) by simp
qed

text \<open>
  Claim C8, as stated, fails: two plain tabs are opened and \<open>updateTabBySource\<close> sets the
  preview flag of each; both tabs are then marked as previews.
\<close>

theorem two_preview_tabs_counterexample:
  "\<not> preview_count (run_operations initialState two_previews_operations) \<le> 1"
  by (simp add: preview_count_def example_defs store_defs)


subsection \<open>Tab identifiers\<close>

lemma updateTabBySource_frame:
  "tabIdSequence (updateTabBySource st sourceId sourceName updates) = tabIdSequence st \<and>
   previewTabId (updateTabBySource st sourceId sourceName updates) = previewTabId st \<and>
   tabsIndex (updateTabBySource st sourceId sourceName updates) = tabsIndex st \<and>
   tabOrder (updateTabBySource st sourceId sourceName updates) = tabOrder st"
  by (simp add: updateTabBySource_def incrementVersion_def Let_def split: option.splits)

lemma openTab_sequence:
  "tabIdSequence (fst (openTab st src config)) = tabIdSequence st \<or>
   tabIdSequence (fst (openTab st src config)) = tabIdSequence st + 1"
proof (cases "truthy (getTabIdBySource st (getSourceId src) (getSourceName src))")
  case True
  then show ?thesis by (simp add: openTab_existing)
next
  case False
  then show ?thesis
    by (cases "config_preview_opt config = Some True"; cases "previewTabId st")
       (simp_all add: openTab_plain openTab_preview_fresh openTab_preview_reuse)
qed

lemma apply_operation_sequence:
  "tabIdSequence st \<le> tabIdSequence (apply_operation st op)"
proof (cases op)
  case (OpenTab src config)
  then show ?thesis using openTab_sequence [of st src config] by auto
next
  case (CloseTabById tabId skipUnsavedPrompt canClose)
  then show ?thesis by (simp add: closeTabById_frame)
next
  case (UpdateTabBySource sourceId sourceName updates)
  then show ?thesis by (simp add: updateTabBySource_frame)
qed

lemma run_operations_sequence:
  "tabIdSequence st \<le> tabIdSequence (run_operations st ops)"
  unfolding run_operations_def
proof (induction ops arbitrary: st)
  case Nil
  then show ?case by simp
next
  case (Cons op ops)
  have "tabIdSequence st \<le> tabIdSequence (apply_operation st op)"
    by (rule apply_operation_sequence)
  also have "\<dots> \<le> tabIdSequence (foldl apply_operation (apply_operation st op) ops)"
    by (rule Cons.IH)
  finally show ?case by simp
qed

text \<open>
  The sequence never decreases, and the identifier that \<open>_generateNewTabId\<close> returns is
  above the sequence, so above every identifier it returned before.
\<close>

lemma generateNewTabId_above_earlier:
  "tabIdSequence st < fst (generateNewTabId (run_operations st ops)) \<and>
   tabIdSequence (snd (generateNewTabId st)) = fst (generateNewTabId st)"
  using run_operations_sequence [of st ops] by simp

text \<open>
  Claim C4, second half. A source is opened as a preview and gets identifier 1; tab 1 is
  closed, and the tab map is empty, but \<open>previewTabId\<close> still names 1. Another source is
  then opened as a preview: its tab is created under identifier 1 again, and the sequence
  still stands at 1. The identifier of a closed tab is assigned to a later tab.
\<close>

theorem closed_preview_identifier_is_reused:
  "Map_keys (tabs one_preview_state) = [1] \<and>
   map (\<lambda>t. getSourceId (source t)) (Map_values (tabs one_preview_state)) = [''a''] \<and>
   tabs closed_preview_state = [] \<and>
   previewTabId closed_preview_state = Some 1 \<and>
   Map_keys (tabs reopened_preview_state) = [1] \<and>
   map (\<lambda>t. getSourceId (source t)) (Map_values (tabs reopened_preview_state)) = [''b''] \<and>
   tabIdSequence reopened_preview_state = 1"
  by (simp add: example_defs store_defs)

subsection \<open>States reached from the initial state\<close>

lemma registry_wf_cong:
  assumes "registry_wf st"
    and "tabIdSequence st' = tabIdSequence st" and "tabs st' = tabs st"
    and "tabsIndex st' = tabsIndex st" and "previewTabId st' = previewTabId st"
    and "previewTabSource st' = previewTabSource st"
  shows "registry_wf st'"
  using assms(1)
  unfolding registry_wf_def ids_issued_def index_resolves_def slot_source_matches_def assms(2-6) .

lemma ids_issued_key:
  "ids_issued st \<Longrightarrow> Map_get (tabs st) k = Some ts \<Longrightarrow> 0 < k \<and> k \<le> tabIdSequence st"
  by (force simp: ids_issued_def dest: map_of_SomeD)

lemma index_positive:
  assumes "registry_wf st" and "getTabIdBySource st sourceId sourceName = Some t"
  shows "0 < t \<and> (\<exists>ts. Map_get (tabs st) t = Some ts \<and> getSourceName (source ts) = sourceName
            \<and> getSourceId (source ts) = sourceId)"
proof -
  obtain ts where ts: "Map_get (tabs st) t = Some ts" "getSourceName (source ts) = sourceName"
      "getSourceId (source ts) = sourceId"
    using assms unfolding registry_wf_def index_resolves_def getTabIdBySource_def by blast
  have "0 < t" using assms(1) ts(1) ids_issued_key by (auto simp: registry_wf_def)
  then show ?thesis using ts by simp
qed

lemma not_truthy_absent:
  assumes "registry_wf st" and "\<not> truthy (getTabIdBySource st sourceId sourceName)"
  shows "getTabIdBySource st sourceId sourceName = None"
proof (cases "getTabIdBySource st sourceId sourceName")
  case None
  then show ?thesis .
next
  case (Some t)
  then have "0 < t" using index_positive [OF assms(1)] by blast
  then show ?thesis using assms(2) Some by simp
qed

text \<open>Storing a tab for a source under an identifier that no other index entry names.\<close>

lemma store_tab_wf:
  assumes wf: "registry_wf st"
    and k: "0 < k" "k \<le> q" "tabIdSequence st \<le> q"
    and others: "\<forall>n s. (n, s) \<noteq> (getSourceName src, getSourceId src) \<longrightarrow> index_get idx n s \<noteq> Some k"
    and idx: "\<forall>n s t. index_get idx n s = Some t \<longrightarrow> index_get (tabsIndex st) n s = Some t"
    and slot: "slot = previewTabId st \<and> slot \<noteq> Some k \<and> slotsrc = previewTabSource st
               \<or> slot = Some k \<and> slotsrc = Some src"
    and src: "source tab = src"
  shows "registry_wf
           (st\<lparr>tabIdSequence := q, tabs := Map_set (tabs st) k tab,
               tabsIndex := index_set idx (getSourceName src) (getSourceId src) k,
               previewTabId := slot, previewTabSource := slotsrc\<rparr>)"
proof -
  let ?st' = "st\<lparr>tabIdSequence := q, tabs := Map_set (tabs st) k tab,
               tabsIndex := index_set idx (getSourceName src) (getSourceId src) k,
               previewTabId := slot, previewTabSource := slotsrc\<rparr>"
  have ids: "ids_issued st" and res: "index_resolves st" and sm: "slot_source_matches st"
    using wf by (simp_all add: registry_wf_def)
  have "ids_issued ?st'"
    using ids k slot by (auto simp: ids_issued_def dom_update)
  moreover have "index_resolves ?st'"
    unfolding index_resolves_def
  proof (intro allI impI)
    fix n s t
    assume a: "index_get (tabsIndex ?st') n s = Some t"
    show "\<exists>ts. Map_get (tabs ?st') t = Some ts \<and> getSourceName (source ts) = n \<and>
        getSourceId (source ts) = s"
    proof (cases "(n, s) = (getSourceName src, getSourceId src)")
      case True
      then have "t = k" using a by (simp add: index_get_set)
      then show ?thesis using True src by (simp add: update_conv')
    next
      case False
      then have old: "index_get idx n s = Some t" using a by (auto simp: index_get_set)
      then have "t \<noteq> k" using others False by blast
      moreover have "index_get (tabsIndex st) n s = Some t" using idx old by blast
      ultimately show ?thesis
        using res by (simp add: index_resolves_def update_conv')
    qed
  qed
  moreover have "slot_source_matches ?st'"
    using sm slot src by (auto simp: slot_source_matches_def update_conv')
  ultimately show ?thesis by (simp add: registry_wf_def)
qed

lemma fresh_identifier_unused:
  assumes "registry_wf st"
  shows "index_get (tabsIndex st) n s \<noteq> Some (tabIdSequence st + 1)"
    and "previewTabId st \<noteq> Some (tabIdSequence st + 1)"
proof -
  have ids: "ids_issued st" and res: "index_resolves st"
    using assms by (simp_all add: registry_wf_def)
  show "index_get (tabsIndex st) n s \<noteq> Some (tabIdSequence st + 1)"
  proof
    assume "index_get (tabsIndex st) n s = Some (tabIdSequence st + 1)"
    then obtain ts where "Map_get (tabs st) (tabIdSequence st + 1) = Some ts"
      using res unfolding index_resolves_def by blast
    then show False using ids_issued_key [OF ids] by fastforce
  qed
  show "previewTabId st \<noteq> Some (tabIdSequence st + 1)"
    using ids by (auto simp: ids_issued_def)
qed


lemma setPreviewTab_present:
  assumes "Map_get (tabs st) p = Some ts"
  shows "previewTabId (setPreviewTab st p) = Some p"
    and "previewTabSource (setPreviewTab st p) = Some (source ts)"
  using assms by (simp_all add: setPreviewTab_def)

lemma openTab_wf:
  assumes wf: "registry_wf st"
  shows "registry_wf (fst (openTab st src config))"
proof (cases "truthy (getTabIdBySource st (getSourceId src) (getSourceName src))")
  case True
  show ?thesis
    using wf by (rule registry_wf_cong) (simp_all add: openTab_existing True)
next
  case False
  note absent = this
  have ids: "ids_issued st" and res: "index_resolves st" and sm: "slot_source_matches st"
    using wf by (simp_all add: registry_wf_def)
  let ?n = "tabIdSequence st + 1"
  have n: "0 < ?n" "?n \<noteq> 0" using ids by (simp_all add: ids_issued_def)
  have same: "\<forall>n s t. index_get (tabsIndex st) n s = Some t \<longrightarrow> index_get (tabsIndex st) n s = Some t"
    by simp
  have unused: "\<forall>n s. (n, s) \<noteq> (getSourceName src, getSourceId src)
      \<longrightarrow> index_get (tabsIndex st) n s \<noteq> Some ?n"
    using fresh_identifier_unused(1) [OF wf] by simp
  show ?thesis
  proof (cases "config_preview_opt config = Some True")
    case False
    let ?tab = "createTabStore ?n src (getDefaultTitle src) (config_preview_opt None)"
    have "registry_wf
        (st\<lparr>tabIdSequence := ?n, tabs := Map_set (tabs st) ?n ?tab,
            tabsIndex := index_set (tabsIndex st) (getSourceName src) (getSourceId src) ?n,
            previewTabId := previewTabId st, previewTabSource := previewTabSource st\<rparr>)"
      using wf n(1) _ _ unused same
    proof (rule store_tab_wf)
      show "previewTabId st = previewTabId st \<and> previewTabId st \<noteq> Some ?n \<and>
          previewTabSource st = previewTabSource st \<or>
          previewTabId st = Some ?n \<and> previewTabSource st = Some src"
        using fresh_identifier_unused(2) [OF wf] by simp
      show "source ?tab = src" by (simp add: createTabStore_def)
    qed simp_all
    then show ?thesis
      by (rule registry_wf_cong)
         (simp_all add: openTab_plain absent False upsertTabSource_tabs upsertTabSource_index n)
  next
    case True
    show ?thesis
    proof (cases "previewTabId st")
      case None
      let ?tab = "createTabStore ?n src (getDefaultTitle src) (config_preview_opt config)"
      let ?u = "fst (upsertTabSource (snd (generateNewTabId st)) (Some ?n) src config)"
      have eq: "fst (openTab st src config) = setPreviewTab ?u ?n"
        using absent True None by (simp add: openTab_preview_fresh)
      have t: "tabs ?u = Map_set (tabs st) ?n ?tab"
        using n by (simp add: upsertTabSource_tabs)
      then have g: "Map_get (tabs ?u) ?n = Some ?tab" by (simp add: update_conv')
      have "registry_wf
          (st\<lparr>tabIdSequence := ?n, tabs := Map_set (tabs st) ?n ?tab,
              tabsIndex := index_set (tabsIndex st) (getSourceName src) (getSourceId src) ?n,
              previewTabId := Some ?n, previewTabSource := Some src\<rparr>)"
        using wf n(1) _ _ unused same
      proof (rule store_tab_wf)
        show "source ?tab = src" by (simp add: createTabStore_def)
      qed simp_all
      then show ?thesis
        unfolding eq
        by (rule registry_wf_cong)
           (simp_all add: setPreviewTab_present [OF g] t upsertTabSource_index n createTabStore_def)
    next
      case (Some p)
      then have p: "0 < p" "p \<le> tabIdSequence st" "p \<noteq> 0"
        using ids by (auto simp: ids_issued_def)
      let ?tab = "createTabStore p src (getDefaultTitle src) (config_preview_opt config)"
      let ?e = "evict_preview_source st"
      let ?u = "fst (upsertTabSource ?e (Some p) src config)"
      have eq: "fst (openTab st src config) = setPreviewTab ?u p"
        using absent True Some by (simp add: openTab_preview_reuse)
      have t: "tabs ?u = Map_set (tabs st) p ?tab"
        using p by (simp add: upsertTabSource_tabs)
      then have g: "Map_get (tabs ?u) p = Some ?tab" by (simp add: update_conv')
      have sub: "\<forall>n s t. index_get (tabsIndex ?e) n s = Some t
          \<longrightarrow> index_get (tabsIndex st) n s = Some t"
        by (auto simp: evict_preview_source_def index_get_delete split: if_splits)
      have evicted: "\<forall>n s. (n, s) \<noteq> (getSourceName src, getSourceId src)
          \<longrightarrow> index_get (tabsIndex ?e) n s \<noteq> Some p"
      proof (intro allI impI notI)
        fix n s
        assume a: "index_get (tabsIndex ?e) n s = Some p"
        then have "index_get (tabsIndex st) n s = Some p" using sub by blast
        then obtain ts where ts: "Map_get (tabs st) p = Some ts" "getSourceName (source ts) = n"
            "getSourceId (source ts) = s"
          using res unfolding index_resolves_def by blast
        then obtain old where old: "previewTabSource st = Some old" "getSourceName old = n"
            "getSourceId old = s"
          using sm Some unfolding slot_source_matches_def by fastforce
        then have "index_get (tabsIndex ?e) n s = None"
          using Some p by (simp add: evict_preview_source_def index_get_delete)
        then show False using a by simp
      qed
      have "registry_wf
          (st\<lparr>tabIdSequence := tabIdSequence st, tabs := Map_set (tabs st) p ?tab,
              tabsIndex := index_set (tabsIndex ?e) (getSourceName src) (getSourceId src) p,
              previewTabId := Some p, previewTabSource := Some src\<rparr>)"
        using wf p(1,2) _ evicted sub
      proof (rule store_tab_wf)
        show "source ?tab = src" by (simp add: createTabStore_def)
      qed simp_all
      then show ?thesis
        unfolding eq
        by (rule registry_wf_cong)
           (simp_all add: setPreviewTab_present [OF g] t upsertTabSource_index p createTabStore_def)
    qed
  qed
qed


lemma closeTabById_fields:
  "fst (closeTabById st tabId skip canClose) = st \<or>
   (\<exists>ts. Map_get (tabs st) tabId = Some ts \<and>
      tabs (fst (closeTabById st tabId skip canClose)) = Map_delete (tabs st) tabId \<and>
      tabsIndex (fst (closeTabById st tabId skip canClose)) =
        index_prune (index_delete (tabsIndex st) (getSourceName (source ts)) (getSourceId (source ts)))
          (getSourceName (source ts)) \<and>
      tabIdSequence (fst (closeTabById st tabId skip canClose)) = tabIdSequence st \<and>
      previewTabId (fst (closeTabById st tabId skip canClose)) = previewTabId st \<and>
      previewTabSource (fst (closeTabById st tabId skip canClose)) = previewTabSource st)"
  by (simp add: closeTabById_def Let_def case_prod_beta split: option.splits)

lemma closeTabById_wf:
  assumes wf: "registry_wf st"
  shows "registry_wf (fst (closeTabById st tabId skip canClose))"
proof -
  let ?st' = "fst (closeTabById st tabId skip canClose)"
  have ids: "ids_issued st" and res: "index_resolves st" and sm: "slot_source_matches st"
    using wf by (simp_all add: registry_wf_def)
  from closeTabById_fields [of st tabId skip canClose] show ?thesis
  proof
    assume "?st' = st"
    then show ?thesis using wf by simp
  next
    assume "\<exists>ts. Map_get (tabs st) tabId = Some ts \<and>
      tabs ?st' = Map_delete (tabs st) tabId \<and>
      tabsIndex ?st' =
        index_prune (index_delete (tabsIndex st) (getSourceName (source ts)) (getSourceId (source ts)))
          (getSourceName (source ts)) \<and>
      tabIdSequence ?st' = tabIdSequence st \<and> previewTabId ?st' = previewTabId st \<and>
      previewTabSource ?st' = previewTabSource st"
    then obtain ts where ts: "Map_get (tabs st) tabId = Some ts"
      and t: "tabs ?st' = Map_delete (tabs st) tabId"
      and i: "tabsIndex ?st' =
        index_prune (index_delete (tabsIndex st) (getSourceName (source ts)) (getSourceId (source ts)))
          (getSourceName (source ts))"
      and f: "tabIdSequence ?st' = tabIdSequence st" "previewTabId ?st' = previewTabId st"
        "previewTabSource ?st' = previewTabSource st"
      by blast
    have "ids_issued ?st'"
      using ids set_delete_subset [of tabId "tabs st"]
      unfolding ids_issued_def t f by (auto simp: delete_keys)
    moreover have "index_resolves ?st'"
      unfolding index_resolves_def
    proof (intro allI impI)
      fix n s k
      assume a: "index_get (tabsIndex ?st') n s = Some k"
      then have key: "(n, s) \<noteq> (getSourceName (source ts), getSourceId (source ts))"
        and old: "index_get (tabsIndex st) n s = Some k"
        by (auto simp: i index_get_prune index_get_delete split: if_splits)
      then obtain ts' where ts': "Map_get (tabs st) k = Some ts'" "getSourceName (source ts') = n"
          "getSourceId (source ts') = s"
        using res unfolding index_resolves_def by blast
      then have "k \<noteq> tabId" using key ts by auto
      then show "\<exists>ts. Map_get (tabs ?st') k = Some ts \<and> getSourceName (source ts) = n \<and>
          getSourceId (source ts) = s"
        using ts' by (simp add: t delete_conv')
    qed
    moreover have "slot_source_matches ?st'"
      using sm unfolding slot_source_matches_def t f
      by (auto simp: delete_conv' split: if_splits)
    ultimately show ?thesis by (simp add: registry_wf_def)
  qed
qed

lemma updateTabBySource_fields:
  "updateTabBySource st sourceId sourceName updates = st \<or>
   (\<exists>k ts new. Map_get (tabs st) k = Some ts \<and> source new = source ts \<and>
      tabs (updateTabBySource st sourceId sourceName updates) = Map_set (tabs st) k new)"
proof (cases "truthy (getTabIdBySource st sourceId sourceName)")
  case False
  then show ?thesis by (simp add: updateTabBySource_def)
next
  case True
  show ?thesis
  proof (cases "Map_get (tabs st) (the (getTabIdBySource st sourceId sourceName))")
    case None
    then show ?thesis using True by (simp add: updateTabBySource_def)
  next
    case (Some ts)
    let ?new = "ts\<lparr>title := (case update_title updates of Some t \<Rightarrow> t | None \<Rightarrow> title ts),
                    preview := (case update_preview updates of Some b \<Rightarrow> b | None \<Rightarrow> preview ts),
                    icon := (case update_icon updates of Some i \<Rightarrow> i | None \<Rightarrow> icon ts)\<rparr>"
    have "tabs (updateTabBySource st sourceId sourceName updates)
        = Map_set (tabs st) (the (getTabIdBySource st sourceId sourceName)) ?new"
      using True Some by (simp add: updateTabBySource_def incrementVersion_def Let_def)
    moreover have "source ?new = source ts" by simp
    ultimately show ?thesis using Some by blast
  qed
qed

lemma updateTabBySource_wf:
  assumes wf: "registry_wf st"
  shows "registry_wf (updateTabBySource st sourceId sourceName updates)"
proof -
  let ?st' = "updateTabBySource st sourceId sourceName updates"
  have ids: "ids_issued st" and res: "index_resolves st" and sm: "slot_source_matches st"
    using wf by (simp_all add: registry_wf_def)
  note f = updateTabBySource_frame [of st sourceId sourceName updates]
  have ps: "previewTabSource ?st' = previewTabSource st"
    by (simp add: updateTabBySource_def incrementVersion_def Let_def split: option.splits)
  from updateTabBySource_fields [of st sourceId sourceName updates] show ?thesis
  proof
    assume "?st' = st"
    then show ?thesis using wf by simp
  next
    assume "\<exists>k ts new. Map_get (tabs st) k = Some ts \<and> source new = source ts \<and>
      tabs ?st' = Map_set (tabs st) k new"
    then obtain k ts new where ts: "Map_get (tabs st) k = Some ts" and src: "source new = source ts"
      and t: "tabs ?st' = Map_set (tabs st) k new"
      by blast
    have k: "0 < k \<and> k \<le> tabIdSequence st" using ids_issued_key [OF ids ts] .
    have "ids_issued ?st'"
      using ids k unfolding ids_issued_def t by (auto simp: f dom_update)
    moreover have "index_resolves ?st'"
      unfolding index_resolves_def
    proof (intro allI impI)
      fix n s j
      assume "index_get (tabsIndex ?st') n s = Some j"
      then have "index_get (tabsIndex st) n s = Some j" by (simp add: f)
      then obtain ts' where ts': "Map_get (tabs st) j = Some ts'" "getSourceName (source ts') = n"
          "getSourceId (source ts') = s"
        using res unfolding index_resolves_def by blast
      show "\<exists>ts. Map_get (tabs ?st') j = Some ts \<and> getSourceName (source ts) = n \<and>
          getSourceId (source ts) = s"
        using ts' ts src by (cases "j = k") (simp_all add: t update_conv')
    qed
    moreover have "slot_source_matches ?st'"
      unfolding slot_source_matches_def
    proof (intro allI impI)
      fix p ts'
      assume a: "previewTabId ?st' = Some p \<and> Map_get (tabs ?st') p = Some ts'"
      then have p: "previewTabId st = Some p" by (simp add: f)
      obtain ts0 where ts0: "Map_get (tabs st) p = Some ts0" "source ts0 = source ts'"
        using a ts src by (cases "p = k") (auto simp: t update_conv')
      then show "\<exists>src. previewTabSource ?st' = Some src \<and>
          getSourceName src = getSourceName (source ts') \<and>
          getSourceId src = getSourceId (source ts')"
        using sm p unfolding slot_source_matches_def ps by fastforce
    qed
    ultimately show ?thesis by (simp add: registry_wf_def)
  qed
qed

lemma apply_operation_wf:
  "registry_wf st \<Longrightarrow> registry_wf (apply_operation st op)"
  by (cases op) (simp_all add: openTab_wf closeTabById_wf updateTabBySource_wf)

lemma initialState_wf: "registry_wf initialState"
  by (simp add: registry_wf_def ids_issued_def index_resolves_def slot_source_matches_def
      initialState_def index_get_def)

text \<open>
  Every state that \<open>openTab\<close>, \<open>closeTabById\<close> and \<open>updateTabBySource\<close> reach from
  the initial state is well formed: the identifiers in use are positive and were issued
  by the sequence, and every entry of the source index names an open tab of that source.
\<close>

lemma run_operations_wf:
  "registry_wf st \<Longrightarrow> registry_wf (run_operations st ops)"
  unfolding run_operations_def
  by (induction ops arbitrary: st) (simp_all add: apply_operation_wf)

lemma reachable_index_entry_resolves:
  assumes "getTabIdBySource (run_operations initialState ops) sourceId sourceName = Some t"
  shows "t \<noteq> 0 \<and> (\<exists>ts. Map_get (tabs (run_operations initialState ops)) t = Some ts)"
  using index_positive [OF run_operations_wf [OF initialState_wf] assms] by auto

lemma reachable_preview_slot_positive:
  assumes "previewTabId (run_operations initialState ops) = Some p"
  shows "p \<noteq> 0"
  using run_operations_wf [OF initialState_wf, of ops] assms
  by (auto simp: registry_wf_def ids_issued_def)

end
